theory Spec2Isabelle
  imports Complex_Main
begin

section \<open>The VRDF service: naming contract, label-channel decomposition, conversion pipeline\<close>

text \<open>
  A shallow embedding of \<^verbatim>\<open>controllers/vrdf_controller.py\<close>. Python exceptions are
  values of the type \<open>error\<close>; a function that can raise returns \<open>error + 'a\<close>, and one
  that also touches the file system returns the file system it leaves behind, on success
  and on failure alike. Calls to \<^verbatim>\<open>logger\<close> have no effect on any result and are left out.
\<close>

datatype error =
  ValueError
  | FileNotFoundError
  | IndexError
  | ImageFileError
  | PermissionError
  | EncoderFailure

subsection \<open>Naming contract\<close>

text \<open>
  \<^verbatim>\<open>re.search(r'-(t1n|t1c|t2w|t2f)\.nii\.gz$', filename)\<close>: the scan tries every start
  position from the left. Without \<^verbatim>\<open>re.MULTILINE\<close>, Python's \<^verbatim>\<open>$\<close> matches at the end of
  the string and also just before a newline that is the last character of the string.
\<close>

definition MODALITIES :: "string list" where
  "MODALITIES = [''t1n'', ''t1c'', ''t2w'', ''t2f'']"

definition modality_suffix :: "string \<Rightarrow> string" where
  "modality_suffix m = ''-'' @ m @ ''.nii.gz''"

definition match_at :: "string \<Rightarrow> string option" where
  "match_at s =
     find (\<lambda>m. s = modality_suffix m \<or> s = modality_suffix m @ [CHR 0x0A]) MODALITIES"

fun re_search :: "string \<Rightarrow> string option" where
  "re_search [] = match_at []"
| "re_search (c # cs) =
     (case match_at (c # cs) of Some m \<Rightarrow> Some m | None \<Rightarrow> re_search cs)"

definition extract_modality_from_filename :: "string \<Rightarrow> error + string" where
  "extract_modality_from_filename filename =
     (case re_search filename of Some m \<Rightarrow> Inr m | None \<Rightarrow> Inl ValueError)"

text \<open>
  \<^verbatim>\<open>s.replace(old, '')\<close>: every occurrence of \<open>old\<close> is removed, scanning from the left
  and skipping over each occurrence found; an empty \<open>old\<close> leaves the string as it is.
\<close>

function str_remove :: "string \<Rightarrow> string \<Rightarrow> string" where
  "str_remove old [] = []"
| "str_remove old (c # cs) =
     (if old \<noteq> [] \<and> take (length old) (c # cs) = old
      then str_remove old (drop (length old) (c # cs))
      else c # str_remove old cs)"
  by pat_completeness auto
termination
  by (relation "measure (\<lambda>(old, s). length s)") (auto simp: neq_Nil_conv)

definition base_name_of :: "string \<Rightarrow> string \<Rightarrow> string" where
  "base_name_of filename modality = str_remove (modality_suffix modality) filename"

definition segmented_filename_of :: "string \<Rightarrow> string \<Rightarrow> string" where
  "segmented_filename_of filename modality =
     base_name_of filename modality @ ''-segmented-'' @ modality @ ''.nii.gz''"

definition vrdf_filename_of :: "string \<Rightarrow> string \<Rightarrow> string" where
  "vrdf_filename_of filename modality =
     base_name_of filename modality @ ''-'' @ modality @ ''.vrdf''"

definition actual_vrdf_filename_of :: "string \<Rightarrow> string \<Rightarrow> string" where
  "actual_vrdf_filename_of filename modality =
     base_name_of filename modality @ ''-'' @ modality @ ''_lw.vrdf''"

subsection \<open>Properties of the naming contract\<close>

lemma modality_length: "m \<in> set MODALITIES \<Longrightarrow> length m = 3"
  by (auto simp: MODALITIES_def)

lemma match_at_Some:
  "match_at s = Some m \<Longrightarrow>
     m \<in> set MODALITIES \<and> (s = modality_suffix m \<or> s = modality_suffix m @ [CHR 0x0A])"
  unfolding match_at_def by (auto simp: find_Some_iff in_set_conv_nth)

lemma re_search_Some:
  "re_search f = Some m \<Longrightarrow> \<exists>b s. f = b @ s \<and> match_at s = Some m"
proof (induction f)
  case Nil
  then show ?case by auto
next
  case (Cons c cs)
  show ?case
  proof (cases "match_at (c # cs)")
    case None
    with Cons obtain b s where "cs = b @ s" "match_at s = Some m" by auto
    then have "c # cs = (c # b) @ s \<and> match_at s = Some m" by simp
    then show ?thesis by blast
  next
    case (Some m')
    with Cons.prems have "c # cs = [] @ (c # cs) \<and> match_at (c # cs) = Some m" by simp
    then show ?thesis by blast
  qed
qed

lemma match_at_None_iff:
  "match_at s = None \<longleftrightarrow>
     (\<forall>m \<in> set MODALITIES. s \<noteq> modality_suffix m \<and> s \<noteq> modality_suffix m @ [CHR 0x0A])"
  unfolding match_at_def by (auto simp: find_None_iff)

lemma re_search_None:
  "re_search (b @ s) = None \<Longrightarrow> match_at s = None"
proof (induction b)
  case Nil
  then show ?case by (cases s) (auto split: option.splits)
next
  case (Cons c b)
  then show ?case by (auto split: option.splits)
qed

text \<open>
  The exact language accepted: the name ends with the suffix of some modality, or with
  that suffix followed by one final newline.
\<close>

lemma extract_modality_iff:
  "extract_modality_from_filename f = Inr m \<longleftrightarrow>
     m \<in> set MODALITIES \<and>
     (\<exists>b. f = b @ modality_suffix m \<or> f = b @ modality_suffix m @ [CHR 0x0A])"
proof
  assume "extract_modality_from_filename f = Inr m"
  then have "re_search f = Some m"
    by (auto simp: extract_modality_from_filename_def split: option.splits)
  then obtain b s where "f = b @ s" "match_at s = Some m"
    using re_search_Some by blast
  then show "m \<in> set MODALITIES \<and>
     (\<exists>b. f = b @ modality_suffix m \<or> f = b @ modality_suffix m @ [CHR 0x0A])"
    using match_at_Some by blast
next
  assume R: "m \<in> set MODALITIES \<and>
     (\<exists>b. f = b @ modality_suffix m \<or> f = b @ modality_suffix m @ [CHR 0x0A])"
  then obtain b where b: "f = b @ modality_suffix m \<or> f = b @ modality_suffix m @ [CHR 0x0A]"
    by blast
  have lm: "length m = 3" using R modality_length by blast
  have "re_search f \<noteq> None"
  proof
    assume N: "re_search f = None"
    from b show False
    proof
      assume "f = b @ modality_suffix m"
      with N have "match_at (modality_suffix m) = None" using re_search_None by blast
      with R show False by (auto simp: match_at_None_iff)
    next
      assume "f = b @ modality_suffix m @ [CHR 0x0A]"
      with N have "match_at (modality_suffix m @ [CHR 0x0A]) = None"
        using re_search_None by blast
      with R show False by (auto simp: match_at_None_iff)
    qed
  qed
  then obtain m' where m': "re_search f = Some m'" by blast
  then obtain b' s' where s': "f = b' @ s'" "match_at s' = Some m'"
    using re_search_Some by blast
  then have M: "m' \<in> set MODALITIES"
    and c': "s' = modality_suffix m' \<or> s' = modality_suffix m' @ [CHR 0x0A]"
    using match_at_Some by blast+
  have lm': "length m' = 3" using M modality_length by blast
  have "m' = m"
  proof -
    from lm obtain x1 x2 x3 where m: "m = [x1, x2, x3]"
      by (auto simp: length_Suc_conv numeral_3_eq_3)
    from lm' obtain y1 y2 y3 where m2: "m' = [y1, y2, y3]"
      by (auto simp: length_Suc_conv numeral_3_eq_3)
    have "rev f = rev s' @ rev b'" using s' by simp
    moreover have "rev f = rev (modality_suffix m) @ rev b \<or>
        rev f = CHR 0x0A # rev (modality_suffix m) @ rev b"
      using b by auto
    ultimately show ?thesis
      using c' by (auto simp: modality_suffix_def m m2)
  qed
  with m' show "extract_modality_from_filename f = Inr m"
    by (simp add: extract_modality_from_filename_def)
qed

lemma extract_modality_of_suffixed:
  "m \<in> set MODALITIES \<Longrightarrow> extract_modality_from_filename (b @ modality_suffix m) = Inr m"
  using extract_modality_iff by blast

lemma extract_modality_fails_iff:
  "extract_modality_from_filename f = Inl e \<longleftrightarrow>
     e = ValueError \<and> (\<forall>m. extract_modality_from_filename f \<noteq> Inr m)"
  by (auto simp: extract_modality_from_filename_def split: option.splits)

text \<open>
  C6, at the input \<^verbatim>\<open>"x-t1n.nii.gz\n"\<close>: the name does not end with any modality suffix
  (its last character is the newline), yet the extraction succeeds with \<open>t1n\<close> instead of
  raising \<^verbatim>\<open>ValueError\<close>.
\<close>

theorem extract_modality_trailing_newline:
  "extract_modality_from_filename (''x-t1n.nii.gz'' @ [CHR 0x0A]) = Inr ''t1n''
   \<and> \<not> (\<exists>m b. ''x-t1n.nii.gz'' @ [CHR 0x0A] = b @ modality_suffix m)"
proof -
  have "\<not> (\<exists>m b. ''x-t1n.nii.gz'' @ [CHR 0x0A] = b @ modality_suffix m)"
  proof (intro notI, elim exE)
    fix m b assume "''x-t1n.nii.gz'' @ [CHR 0x0A] = b @ modality_suffix m"
    then have "last (''x-t1n.nii.gz'' @ [CHR 0x0A]) = last (b @ modality_suffix m)" by simp
    then show False by (simp add: modality_suffix_def)
  qed
  moreover have "extract_modality_from_filename (''x-t1n.nii.gz'' @ [CHR 0x0A]) = Inr ''t1n''"
    by (simp add: extract_modality_from_filename_def match_at_def modality_suffix_def
        MODALITIES_def)
  ultimately show ?thesis by (intro conjI)
qed

text \<open>
  When the suffix occurs in the name only at its end, the derived names are built on the
  part of the name before the suffix.
\<close>

lemma str_remove_suffix_only:
  assumes "old \<noteq> []"
    and "\<forall>i < length b. take (length old) (drop i (b @ old)) \<noteq> old"
  shows "str_remove old (b @ old) = b"
  using assms(2)
proof (induction b)
  case Nil
  obtain c cs where o: "old = c # cs" using assms(1) by (cases old) auto
  have "str_remove old (c # cs) = str_remove old (drop (length old) (c # cs))"
    using assms(1) o by simp
  then show ?case using o by simp
next
  case (Cons x b)
  have h: "take (length old) ((x # b) @ old) \<noteq> old"
    using Cons.prems [rule_format, of 0] by simp
  have r: "\<forall>i < length b. take (length old) (drop i (b @ old)) \<noteq> old"
  proof (intro allI impI)
    fix i assume "i < length b"
    then show "take (length old) (drop i (b @ old)) \<noteq> old"
      using Cons.prems [rule_format, of "Suc i"] by simp
  qed
  have "str_remove old ((x # b) @ old) = x # str_remove old (b @ old)"
    using h by simp
  then show ?case using Cons.IH [OF r] by simp
qed

lemma naming_round_trip_without_interior_occurrence:
  assumes "m \<in> set MODALITIES"
    and "\<forall>i < length b.
           take (length (modality_suffix m)) (drop i (b @ modality_suffix m)) \<noteq> modality_suffix m"
  shows "extract_modality_from_filename (b @ modality_suffix m) = Inr m
     \<and> base_name_of (b @ modality_suffix m) m = b
     \<and> segmented_filename_of (b @ modality_suffix m) m = b @ ''-segmented-'' @ m @ ''.nii.gz''
     \<and> vrdf_filename_of (b @ modality_suffix m) m = b @ ''-'' @ m @ ''.vrdf''"
proof -
  have ne: "modality_suffix m \<noteq> []" by (simp add: modality_suffix_def)
  have "base_name_of (b @ modality_suffix m) m = b"
    unfolding base_name_of_def using ne assms(2) by (rule str_remove_suffix_only)
  then show ?thesis
    using extract_modality_of_suffixed [OF assms(1)]
    by (simp add: segmented_filename_of_def vrdf_filename_of_def)
qed

text \<open>
  C4, at the base \<^verbatim>\<open>"x-t1n.nii.gz.bak"\<close> and the modality \<open>t1n\<close>: the base does not end
  with a modality suffix and the modality is extracted from the full name, but the derived
  names are built on \<^verbatim>\<open>"x.bak"\<close>: the interior occurrence of the suffix is removed as well.
\<close>

theorem naming_round_trip_interior_occurrence:
  "extract_modality_from_filename (''x-t1n.nii.gz.bak'' @ modality_suffix ''t1n'') = Inr ''t1n''
   \<and> base_name_of (''x-t1n.nii.gz.bak'' @ modality_suffix ''t1n'') ''t1n'' = ''x.bak''
   \<and> segmented_filename_of (''x-t1n.nii.gz.bak'' @ modality_suffix ''t1n'') ''t1n''
       = ''x.bak-segmented-t1n.nii.gz''
   \<and> vrdf_filename_of (''x-t1n.nii.gz.bak'' @ modality_suffix ''t1n'') ''t1n''
       = ''x.bak-t1n.vrdf''
   \<and> extract_modality_from_filename ''x-t1n.nii.gz.bak'' = Inl ValueError"
  by (simp add: extract_modality_from_filename_def match_at_def modality_suffix_def
      MODALITIES_def base_name_of_def segmented_filename_of_def vrdf_filename_of_def)

subsection \<open>Arrays\<close>

text \<open>
  A numpy array is its shape and its elements in C order (the last axis varies fastest).
  \<open>wf_array\<close> says that the number of elements is the product of the shape.
\<close>

record 'a ndarray =
  shape :: "nat list"
  data :: "'a list"

definition wf_array :: "'a ndarray \<Rightarrow> bool" where
  "wf_array a = (length (data a) = prod_list (shape a))"

text \<open>\<^verbatim>\<open>np.zeros(shp)\<close>, \<^verbatim>\<open>a.astype(t)\<close> with the element conversion \<open>cast\<close>,
  \<^verbatim>\<open>seg == lab\<close> and \<^verbatim>\<open>np.any(m)\<close>.\<close>

definition np_zeros :: "nat list \<Rightarrow> ('a::zero) ndarray" where
  "np_zeros shp = \<lparr>shape = shp, data = replicate (prod_list shp) 0\<rparr>"

definition astype :: "('a \<Rightarrow> 'b) \<Rightarrow> 'a ndarray \<Rightarrow> 'b ndarray" where
  "astype cast a = \<lparr>shape = shape a, data = map cast (data a)\<rparr>"

definition eq_mask :: "int ndarray \<Rightarrow> int \<Rightarrow> bool ndarray" where
  "eq_mask seg lab = \<lparr>shape = shape seg, data = map (\<lambda>v. v = lab) (data seg)\<rparr>"

definition np_any :: "bool ndarray \<Rightarrow> bool" where
  "np_any m = (True \<in> set (data m))"

text \<open>
  Boolean-mask indexing \<^verbatim>\<open>a[m]\<close>. The mask may have fewer axes than the array; its shape
  must equal the leading part of the array's shape, otherwise numpy raises
  \<^verbatim>\<open>IndexError\<close> (too many indices, or a boolean index that does not match the indexed
  axis). Each mask element selects the whole block of the array below it, so over the
  elements of the array the mask is \<open>selection\<close>. \<open>bool_take\<close> collects the selected
  elements in order (the right-hand side \<^verbatim>\<open>vol[mask]\<close>), \<open>bool_put\<close> writes a list of
  values to the selected positions in order (the assignment \<^verbatim>\<open>view[mask] = vals\<close>).
\<close>

definition mask_fits :: "nat list \<Rightarrow> nat list \<Rightarrow> bool" where
  "mask_fits ms shp = (length ms \<le> length shp \<and> take (length ms) shp = ms)"

definition selection :: "bool ndarray \<Rightarrow> nat list \<Rightarrow> bool list" where
  "selection m shp =
     concat (map (replicate (prod_list (drop (length (shape m)) shp))) (data m))"

fun bool_take :: "bool list \<Rightarrow> 'a list \<Rightarrow> 'a list" where
  "bool_take (b # bs) (x # xs) = (if b then x # bool_take bs xs else bool_take bs xs)"
| "bool_take _ _ = []"

fun bool_put :: "bool list \<Rightarrow> 'a list \<Rightarrow> 'a list \<Rightarrow> 'a list" where
  "bool_put (b # bs) (x # xs) vals =
     (if b then (case vals of v # vs \<Rightarrow> v # bool_put bs xs vs | [] \<Rightarrow> x # bool_put bs xs [])
      else x # bool_put bs xs vals)"
| "bool_put _ xs _ = xs"

definition getitem_mask :: "'a ndarray \<Rightarrow> bool ndarray \<Rightarrow> error + 'a list" where
  "getitem_mask a m =
     (if mask_fits (shape m) (shape a)
      then Inr (bool_take (selection m (shape a)) (data a))
      else Inl IndexError)"

text \<open>
  \<^verbatim>\<open>a[..., s]\<close> is a view on the elements with index \<open>s\<close> on the last axis;
  \<open>channel_store\<close> writes the elements of such a view back into the array.
  \<^verbatim>\<open>out[..., s][m] = vals\<close> raises \<^verbatim>\<open>IndexError\<close> when \<open>s\<close> is out of range or the
  mask does not fit the view, and \<^verbatim>\<open>ValueError\<close> when the number of values is not the
  number of selected positions.
\<close>

definition channel_view :: "'a ndarray \<Rightarrow> nat \<Rightarrow> 'a ndarray" where
  "channel_view a s =
     \<lparr>shape = butlast (shape a),
      data = map (\<lambda>p. data a ! (p * last (shape a) + s)) [0..<prod_list (butlast (shape a))]\<rparr>"

definition channel_store :: "'a ndarray \<Rightarrow> nat \<Rightarrow> 'a list \<Rightarrow> 'a ndarray" where
  "channel_store a s ch =
     a\<lparr>data := map (\<lambda>i. if i mod last (shape a) = s then ch ! (i div last (shape a))
                         else data a ! i) [0..<length (data a)]\<rparr>"

definition setitem_channel_mask ::
  "'a ndarray \<Rightarrow> nat \<Rightarrow> bool ndarray \<Rightarrow> 'a list \<Rightarrow> error + 'a ndarray" where
  "setitem_channel_mask out s m vals =
     (if shape out = [] \<or> last (shape out) \<le> s then Inl IndexError
      else let view = channel_view out s; sel = selection m (shape view) in
        if \<not> mask_fits (shape m) (shape view) then Inl IndexError
        else if length vals \<noteq> length (filter id sel) then Inl ValueError
        else Inr (channel_store out s (bool_put sel (data view) vals)))"

subsection \<open>Label-channel decomposition\<close>

text \<open>
  Lines 69 to 79 of \<^verbatim>\<open>perform_segmentation_from_filename\<close>: \<open>fill_channel\<close> is the body
  of the loop over \<^verbatim>\<open>enumerate(masks)\<close>, \<open>fill_channels\<close> the loop, \<open>decompose\<close> the whole
  block. Unpacking \<^verbatim>\<open>H, W, Z = vol.shape\<close> raises \<^verbatim>\<open>ValueError\<close> unless the volume has
  exactly three axes.
\<close>

definition LABELS :: "int list" where
  "LABELS = [0, 1, 2, 3]"

definition fill_channel ::
  "'a ndarray \<Rightarrow> nat \<Rightarrow> bool ndarray \<Rightarrow> 'a ndarray \<Rightarrow> error + 'a ndarray" where
  "fill_channel vol s_idx msk out =
     (if np_any msk
      then (case getitem_mask vol msk of
              Inl e \<Rightarrow> Inl e
            | Inr vals \<Rightarrow> setitem_channel_mask out s_idx msk vals)
      else Inr out)"

fun fill_channels ::
  "'a ndarray \<Rightarrow> (nat \<times> bool ndarray) list \<Rightarrow> 'a ndarray \<Rightarrow> error + 'a ndarray" where
  "fill_channels vol [] out = Inr out"
| "fill_channels vol ((s_idx, msk) # rest) out =
     (case fill_channel vol s_idx msk out of
        Inl e \<Rightarrow> Inl e
      | Inr out' \<Rightarrow> fill_channels vol rest out')"

definition decompose :: "('a::zero) ndarray \<Rightarrow> int ndarray \<Rightarrow> error + 'a ndarray" where
  "decompose vol seg =
     (case shape vol of
        [H, W, Z] \<Rightarrow>
          (let S = length LABELS;
               masks = map (eq_mask seg) LABELS;
               out = np_zeros [H, W, Z, S]
           in fill_channels vol (enumerate 0 masks) out)
      | _ \<Rightarrow> Inl ValueError)"


text \<open>The elements \<^verbatim>\<open>a[i, j, k]\<close> and \<^verbatim>\<open>a[i, j, k, s]\<close> of a C-ordered array.\<close>

definition at3 :: "'a ndarray \<Rightarrow> nat \<Rightarrow> nat \<Rightarrow> nat \<Rightarrow> 'a" where
  "at3 a i j k = data a ! ((i * (shape a ! 1) + j) * (shape a ! 2) + k)"

definition at4 :: "'a ndarray \<Rightarrow> nat \<Rightarrow> nat \<Rightarrow> nat \<Rightarrow> nat \<Rightarrow> 'a" where
  "at4 a i j k s =
     data a ! (((i * (shape a ! 1) + j) * (shape a ! 2) + k) * (shape a ! 3) + s)"

text \<open>
  \<^verbatim>\<open>astype(np.int32)\<close> on a finite float value (given as the rational it denotes):
  truncation toward zero; a value outside the range of a 32-bit integer gives the
  minimal integer, as the conversion instruction of the usual hardware does.
\<close>

definition astype_int32 :: "rat \<Rightarrow> int" where
  "astype_int32 v =
     (if - 2147483649 < v \<and> v < 2147483648
      then (if 0 \<le> v then \<lfloor>v\<rfloor> else \<lceil>v\<rceil>)
      else - 2147483648)"

subsection \<open>Properties of the decomposition\<close>

lemma bool_put_length [simp]: "length (bool_put bs xs vals) = length xs"
  by (induction bs xs vals rule: bool_put.induct) (auto split: list.splits)

lemma bool_take_length:
  "length xs = length bs \<Longrightarrow> length (bool_take bs xs) = length (filter id bs)"
  by (induction bs xs rule: bool_take.induct) auto

lemma bool_put_take_nth:
  "length xs = length bs \<Longrightarrow> length ys = length bs \<Longrightarrow> p < length bs \<Longrightarrow>
   bool_put bs xs (bool_take bs ys) ! p = (if bs ! p then ys ! p else xs ! p)"
proof (induction bs arbitrary: xs ys p)
  case Nil
  then show ?case by simp
next
  case (Cons b bs)
  then obtain x xs' y ys' where xy: "xs = x # xs'" "ys = y # ys'"
    by (cases xs; cases ys) auto
  show ?case
  proof (cases p)
    case 0
    then show ?thesis using xy by simp
  next
    case (Suc q)
    then show ?thesis using xy Cons by simp
  qed
qed

lemma concat_replicate_one: "concat (map (replicate (Suc 0)) xs) = xs"
  by (induction xs) auto

lemma selection_full:
  "length (shape m) = length shp \<Longrightarrow> selection m shp = data m"
  by (simp add: selection_def concat_replicate_one)


lemma flat_index_bound: "p < n \<Longrightarrow> t < S \<Longrightarrow> p * S + t < n * (S::nat)"
proof -
  assume a: "p < n" "t < S"
  then have "p * S + t < p * S + S" by simp
  also have "\<dots> = Suc p * S" by simp
  also have "\<dots> \<le> n * S" using a by (intro mult_le_mono1) simp
  finally show ?thesis .
qed

lemma fill_channel_same_shape:
  assumes vol: "wf_array vol" "shape vol = shp"
    and msk: "wf_array msk" "shape msk = shp"
    and out: "shape out = shp @ [S]" "length (data out) = prod_list shp * S"
    and s: "s < S"
  shows "\<exists>out'. fill_channel vol s msk out = Inr out' \<and> shape out' = shape out \<and>
           length (data out') = length (data out) \<and>
           (\<forall>p < prod_list shp. \<forall>t < S.
              data out' ! (p * S + t) =
                (if t = s \<and> data msk ! p then data vol ! p else data out ! (p * S + t)))"
proof (cases "np_any msk")
  case False
  then have "\<forall>p < prod_list shp. \<not> data msk ! p"
    using msk by (auto simp: np_any_def wf_array_def in_set_conv_nth)
  with False show ?thesis by (simp add: fill_channel_def)
next
  case True
  let ?n = "prod_list shp"
  let ?view = "channel_view out s"
  have lv: "length (data vol) = ?n" and lm: "length (data msk) = ?n"
    using vol msk by (simp_all add: wf_array_def)
  have sv: "shape ?view = shp" using out by (simp add: channel_view_def)
  have dv: "length (data ?view) = ?n" using out by (simp add: channel_view_def)
  have selv: "selection msk (shape vol) = data msk"
    using vol msk by (simp add: selection_full)
  have selo: "selection msk (shape ?view) = data msk"
    using sv msk by (simp add: selection_full)
  have fits: "mask_fits (shape msk) shp" using msk by (simp add: mask_fits_def)
  have g: "getitem_mask vol msk = Inr (bool_take (data msk) (data vol))"
    using fits vol selv by (simp add: getitem_mask_def)
  let ?vals = "bool_take (data msk) (data vol)"
  let ?ch = "bool_put (data msk) (data ?view) ?vals"
  have cnt: "length ?vals = length (filter id (data msk))"
    using lv lm by (simp add: bool_take_length)
  have st: "setitem_channel_mask out s msk ?vals = Inr (channel_store out s ?ch)"
    using out s fits sv selo cnt by (simp add: setitem_channel_mask_def Let_def)
  have res: "fill_channel vol s msk out = Inr (channel_store out s ?ch)"
    using True g st by (simp add: fill_channel_def)
  have "\<forall>p < ?n. \<forall>t < S.
      data (channel_store out s ?ch) ! (p * S + t) =
        (if t = s \<and> data msk ! p then data vol ! p else data out ! (p * S + t))"
  proof (intro allI impI)
    fix p t assume p: "p < ?n" and t: "t < S"
    have b: "p * S + t < length (data out)" using out p t by (simp add: flat_index_bound)
    have chp: "?ch ! p = (if data msk ! p then data vol ! p else data ?view ! p)"
      using bool_put_take_nth [of "data ?view" "data msk" "data vol" p] dv lm lv p by simp
    have vp: "data ?view ! p = data out ! (p * S + s)"
      using out p by (simp add: channel_view_def)
    show "data (channel_store out s ?ch) ! (p * S + t) =
        (if t = s \<and> data msk ! p then data vol ! p else data out ! (p * S + t))"
      using b t out chp vp by (simp add: channel_store_def)
  qed
  then show ?thesis using res by (simp add: channel_store_def)
qed


lemma fill_channels_same_shape:
  assumes vol: "wf_array vol" "shape vol = shp"
    and masks: "\<forall>m \<in> set masks. wf_array m \<and> shape m = shp"
    and out: "shape out = shp @ [S]" "length (data out) = prod_list shp * S"
    and k: "k + length masks \<le> S"
  shows "\<exists>out'. fill_channels vol (enumerate k masks) out = Inr out' \<and>
           shape out' = shape out \<and> length (data out') = length (data out) \<and>
           (\<forall>p < prod_list shp. \<forall>t < S.
              data out' ! (p * S + t) =
                (if k \<le> t \<and> t < k + length masks \<and> data (masks ! (t - k)) ! p
                 then data vol ! p else data out ! (p * S + t)))"
  using masks out k
proof (induction masks arbitrary: k out)
  case Nil
  then show ?case by auto
next
  case (Cons m ms)
  have m: "wf_array m" "shape m = shp" using Cons.prems(1) by simp_all
  have kS: "k < S" using Cons.prems(4) by simp
  obtain o1 where o1: "fill_channel vol k m out = Inr o1" "shape o1 = shape out"
    "length (data o1) = length (data out)"
    "\<forall>p < prod_list shp. \<forall>t < S.
        data o1 ! (p * S + t) =
          (if t = k \<and> data m ! p then data vol ! p else data out ! (p * S + t))"
    using fill_channel_same_shape [OF vol m Cons.prems(2) Cons.prems(3) kS] by blast
  have ms: "\<forall>m \<in> set ms. wf_array m \<and> shape m = shp" using Cons.prems(1) by simp
  have s1: "shape o1 = shp @ [S]" using o1 Cons.prems(2) by simp
  have l1: "length (data o1) = prod_list shp * S" using o1 Cons.prems(3) by simp
  have k1: "Suc k + length ms \<le> S" using Cons.prems(4) by simp
  obtain o2 where o2: "fill_channels vol (enumerate (Suc k) ms) o1 = Inr o2"
    "shape o2 = shape o1" "length (data o2) = length (data o1)"
    "\<forall>p < prod_list shp. \<forall>t < S.
        data o2 ! (p * S + t) =
          (if Suc k \<le> t \<and> t < Suc k + length ms \<and> data (ms ! (t - Suc k)) ! p
           then data vol ! p else data o1 ! (p * S + t))"
    using Cons.IH [OF ms s1 l1 k1] by blast
  have run: "fill_channels vol (enumerate k (m # ms)) out = Inr o2"
    using o1(1) o2(1) by simp
  have "\<forall>p < prod_list shp. \<forall>t < S.
      data o2 ! (p * S + t) =
        (if k \<le> t \<and> t < k + length (m # ms) \<and> data ((m # ms) ! (t - k)) ! p
         then data vol ! p else data out ! (p * S + t))"
  proof (intro allI impI)
    fix p t assume p: "p < prod_list shp" and t: "t < S"
    consider "t < k" | "t = k" | "k < t" by linarith
    then show "data o2 ! (p * S + t) =
        (if k \<le> t \<and> t < k + length (m # ms) \<and> data ((m # ms) ! (t - k)) ! p
         then data vol ! p else data out ! (p * S + t))"
    proof cases
      case 1
      then show ?thesis using o1(4) o2(4) p t by simp
    next
      case 2
      then show ?thesis using o1(4) o2(4) p t by simp
    next
      case 3
      then obtain d where d: "t = Suc k + d" by (metis add_Suc less_iff_Suc_add)
      then have "(m # ms) ! (t - k) = ms ! (t - Suc k)" by simp
      then show ?thesis using 3 o1(4) o2(4) p t by auto
    qed
  qed
  then show ?case using run o1 o2 by simp
qed

lemma voxel_index_bound:
  assumes "i < H" "j < W" "k < Z"
  shows "(i * W + j) * Z + k < prod_list [H, W, Z :: nat]"
proof -
  have "i * W + j < H * W" using assms(1,2) by (rule flat_index_bound)
  then have "(i * W + j) * Z + k < (H * W) * Z" using assms(3) by (rule flat_index_bound)
  then show ?thesis by (simp add: mult.assoc)
qed

lemma decompose_pointwise:
  assumes vol: "shape vol = [H, W, Z]" "wf_array vol"
    and seg: "shape seg = [H, W, Z]" "wf_array seg"
  shows "\<exists>out. decompose vol seg = Inr out \<and> shape out = [H, W, Z, 4] \<and> wf_array out \<and>
           (\<forall>p < prod_list [H, W, Z]. \<forall>t < 4.
              data out ! (p * 4 + t) =
                (if data seg ! p = LABELS ! t then data vol ! p else 0))"
proof -
  let ?shp = "[H, W, Z]"
  let ?masks = "map (eq_mask seg) LABELS"
  let ?out0 = "np_zeros [H, W, Z, 4] :: 'a ndarray"
  have ls: "length (data seg) = prod_list ?shp" using seg by (simp add: wf_array_def)
  have masks: "\<forall>m \<in> set ?masks. wf_array m \<and> shape m = ?shp"
    using seg by (auto simp: eq_mask_def wf_array_def)
  have s0: "shape ?out0 = ?shp @ [4]" by (simp add: np_zeros_def)
  have l0: "length (data ?out0) = prod_list ?shp * 4"
    by (simp add: np_zeros_def mult.assoc)
  have k0: "0 + length ?masks \<le> (4::nat)" by (simp add: LABELS_def)
  obtain out where o: "fill_channels vol (enumerate 0 ?masks) ?out0 = Inr out"
    "shape out = shape ?out0" "length (data out) = length (data ?out0)"
    "\<forall>p < prod_list ?shp. \<forall>t < 4.
        data out ! (p * 4 + t) =
          (if 0 \<le> t \<and> t < 0 + length ?masks \<and> data (?masks ! (t - 0)) ! p
           then data vol ! p else data ?out0 ! (p * 4 + t))"
    using fill_channels_same_shape [OF vol(2) vol(1) masks s0 l0 k0] by blast
  have len: "length LABELS = 4" by (simp add: LABELS_def)
  have run: "decompose vol seg = Inr out"
    unfolding decompose_def Let_def len using vol(1) o(1) by simp
  have pt: "\<forall>p < prod_list ?shp. \<forall>t < 4.
      data out ! (p * 4 + t) = (if data seg ! p = LABELS ! t then data vol ! p else 0)"
  proof (intro allI impI)
    fix p t :: nat assume p: "p < prod_list ?shp" and t: "t < 4"
    have b: "p * 4 + t < prod_list ?shp * 4" using p t by (rule flat_index_bound)
    have z: "data ?out0 ! (p * 4 + t) = 0"
      using b by (simp add: np_zeros_def mult.assoc)
    have lt: "t < length LABELS" using t by (simp add: LABELS_def)
    have mk: "data (?masks ! t) ! p = (data seg ! p = LABELS ! t)"
      using p ls lt by (simp add: eq_mask_def)
    show "data out ! (p * 4 + t) = (if data seg ! p = LABELS ! t then data vol ! p else 0)"
      using o(4) p t z mk lt by simp
  qed
  have "wf_array out" using o(2,3) by (simp add: wf_array_def np_zeros_def)
  then show ?thesis using run o(2) pt by (simp add: np_zeros_def)
qed


lemma LABELS_nth_inj: "s < 4 \<Longrightarrow> t < 4 \<Longrightarrow> LABELS ! s = LABELS ! t \<Longrightarrow> s = t"
proof -
  assume a: "s < 4" "t < 4" "LABELS ! s = LABELS ! t"
  have "distinct LABELS" "length LABELS = 4" by (simp_all add: LABELS_def)
  then show ?thesis using a by (simp add: nth_eq_iff_index_eq)
qed

lemma LABELS_member: "v \<in> set LABELS \<longleftrightarrow> (\<exists>t < 4. v = LABELS ! t)"
proof -
  have "length LABELS = 4" by (simp add: LABELS_def)
  then show ?thesis by (auto simp: in_set_conv_nth)
qed

text \<open>
  C1: for a volume and a labelmap of the same shape \<open>(H, W, Z)\<close>, the decomposition
  returns an array of shape \<open>(H, W, Z, 4)\<close> such that at every voxel: if the label is
  \<open>LABELS[s]\<close>, channel \<open>s\<close> holds the volume's intensity and every other channel is
  zero; if the label is not in \<open>LABELS\<close>, every channel is zero; and at most one channel
  is non-zero.
\<close>

theorem decompose_channel_exclusive:
  assumes "shape vol = [H, W, Z]" "wf_array vol" "shape seg = [H, W, Z]" "wf_array seg"
  shows "\<exists>out. decompose vol seg = Inr out \<and> shape out = [H, W, Z, 4] \<and> wf_array out \<and>
     (\<forall>i < H. \<forall>j < W. \<forall>k < Z.
        (\<forall>s < 4. at3 seg i j k = LABELS ! s \<longrightarrow>
            at4 out i j k s = at3 vol i j k \<and> (\<forall>t < 4. t \<noteq> s \<longrightarrow> at4 out i j k t = 0)) \<and>
        (at3 seg i j k \<notin> set LABELS \<longrightarrow> (\<forall>t < 4. at4 out i j k t = 0)) \<and>
        (\<forall>s < 4. \<forall>t < 4. at4 out i j k s \<noteq> 0 \<and> at4 out i j k t \<noteq> 0 \<longrightarrow> s = t))"
proof -
  obtain out where o: "decompose vol seg = Inr out" "shape out = [H, W, Z, 4]" "wf_array out"
    and pt: "\<forall>p < prod_list [H, W, Z]. \<forall>t < 4.
       data out ! (p * 4 + t) = (if data seg ! p = LABELS ! t then data vol ! p else 0)"
    using decompose_pointwise [OF assms] by blast
  have "\<forall>i < H. \<forall>j < W. \<forall>k < Z.
        (\<forall>s < 4. at3 seg i j k = LABELS ! s \<longrightarrow>
            at4 out i j k s = at3 vol i j k \<and> (\<forall>t < 4. t \<noteq> s \<longrightarrow> at4 out i j k t = 0)) \<and>
        (at3 seg i j k \<notin> set LABELS \<longrightarrow> (\<forall>t < 4. at4 out i j k t = 0)) \<and>
        (\<forall>s < 4. \<forall>t < 4. at4 out i j k s \<noteq> 0 \<and> at4 out i j k t \<noteq> 0 \<longrightarrow> s = t)"
  proof (intro allI impI)
    fix i j k assume ijk: "i < H" "j < W" "k < Z"
    let ?p = "(i * W + j) * Z + k"
    have p: "?p < prod_list [H, W, Z]" using ijk by (rule voxel_index_bound)
    have a4: "\<And>t. at4 out i j k t = data out ! (?p * 4 + t)"
      using o(2) by (simp add: at4_def)
    have v3: "at3 vol i j k = data vol ! ?p" using assms(1) by (simp add: at3_def)
    have s3: "at3 seg i j k = data seg ! ?p" using assms(3) by (simp add: at3_def)
    have f: "at4 out i j k t = (if at3 seg i j k = LABELS ! t then at3 vol i j k else 0)"
      if t: "t < 4" for t
    proof -
      have "data out ! (?p * 4 + t) = (if data seg ! ?p = LABELS ! t then data vol ! ?p else 0)"
        using pt p t by blast
      then show ?thesis unfolding a4 v3 s3 .
    qed
    have c1: "\<forall>s < 4. at3 seg i j k = LABELS ! s \<longrightarrow>
            at4 out i j k s = at3 vol i j k \<and> (\<forall>t < 4. t \<noteq> s \<longrightarrow> at4 out i j k t = 0)"
      using f LABELS_nth_inj by auto
    have c2: "at3 seg i j k \<notin> set LABELS \<longrightarrow> (\<forall>t < 4. at4 out i j k t = 0)"
      using f LABELS_member by auto
    have c3: "\<forall>s < 4. \<forall>t < 4. at4 out i j k s \<noteq> 0 \<and> at4 out i j k t \<noteq> 0 \<longrightarrow> s = t"
    proof (intro allI impI)
      fix s t :: nat assume s: "s < 4" and t: "t < 4"
        and nz: "at4 out i j k s \<noteq> 0 \<and> at4 out i j k t \<noteq> 0"
      have "at3 seg i j k = LABELS ! s" using f [OF s] nz by (auto split: if_splits)
      moreover have "at3 seg i j k = LABELS ! t" using f [OF t] nz by (auto split: if_splits)
      ultimately show "s = t" using LABELS_nth_inj s t by simp
    qed
    show "(\<forall>s < 4. at3 seg i j k = LABELS ! s \<longrightarrow>
            at4 out i j k s = at3 vol i j k \<and> (\<forall>t < 4. t \<noteq> s \<longrightarrow> at4 out i j k t = 0)) \<and>
        (at3 seg i j k \<notin> set LABELS \<longrightarrow> (\<forall>t < 4. at4 out i j k t = 0)) \<and>
        (\<forall>s < 4. \<forall>t < 4. at4 out i j k s \<noteq> 0 \<and> at4 out i j k t \<noteq> 0 \<longrightarrow> s = t)"
      using c1 c2 c3 by blast
  qed
  then show ?thesis using o by blast
qed

theorem decompose_channel_exclusive_witness:
  "shape \<lparr>shape = [1, 1, 2], data = [5 :: rat, 7]\<rparr> = [1, 1, 2]
   \<and> wf_array \<lparr>shape = [1, 1, 2], data = [5 :: rat, 7]\<rparr>
   \<and> shape \<lparr>shape = [1, 1, 2], data = [1 :: int, 3]\<rparr> = [1, 1, 2]
   \<and> wf_array \<lparr>shape = [1, 1, 2], data = [1 :: int, 3]\<rparr>
   \<and> (\<exists>out. decompose \<lparr>shape = [1, 1, 2], data = [5 :: rat, 7]\<rparr>
                \<lparr>shape = [1, 1, 2], data = [1, 3]\<rparr> = Inr out
          \<and> shape out = [1, 1, 2, 4]
          \<and> at4 out 0 0 1 3 = 7 \<and> at4 out 0 0 1 0 = 0 \<and> at4 out 0 0 0 1 = 5)"
proof -
  let ?V = "\<lparr>shape = [1, 1, 2], data = [5 :: rat, 7]\<rparr>"
  let ?L = "\<lparr>shape = [1, 1, 2], data = [1 :: int, 3]\<rparr>"
  have h: "shape ?V = [1, 1, 2]" "wf_array ?V" "shape ?L = [1, 1, 2]" "wf_array ?L"
    by (simp_all add: wf_array_def)
  obtain out where all: "decompose ?V ?L = Inr out \<and> shape out = [1, 1, 2, 4] \<and>
     wf_array out \<and>
     (\<forall>i < 1. \<forall>j < 1. \<forall>k < 2.
        (\<forall>s < 4. at3 ?L i j k = LABELS ! s \<longrightarrow>
            at4 out i j k s = at3 ?V i j k \<and> (\<forall>t < 4. t \<noteq> s \<longrightarrow> at4 out i j k t = 0)) \<and>
        (at3 ?L i j k \<notin> set LABELS \<longrightarrow> (\<forall>t < 4. at4 out i j k t = 0)) \<and>
        (\<forall>s < 4. \<forall>t < 4. at4 out i j k s \<noteq> 0 \<and> at4 out i j k t \<noteq> 0 \<longrightarrow> s = t))"
    using decompose_channel_exclusive [OF h] ..
  note o = all [THEN conjunct1] all [THEN conjunct2, THEN conjunct1]
  note pt = all [THEN conjunct2, THEN conjunct2, THEN conjunct2]
  have n: "(0::nat) < 1" "(1::nat) < 2" "(0::nat) < 2" "(3::nat) < 4" "(1::nat) < 4"
    "(0::nat) < 4" "(0::nat) \<noteq> 3"
    by simp_all
  note q1 = pt [rule_format, OF n(1) n(1) n(2)]
  note q0 = pt [rule_format, OF n(1) n(1) n(3)]
  have e3: "at3 ?L 0 0 1 = LABELS ! 3" and w3: "at3 ?V 0 0 1 = 7"
    by (simp_all add: at3_def LABELS_def)
  have e1: "at3 ?L 0 0 0 = LABELS ! 1" and w1: "at3 ?V 0 0 0 = 5"
    by (simp_all add: at3_def LABELS_def)
  note r1 = q1 [THEN conjunct1, rule_format, OF n(4) e3]
  note r0 = q0 [THEN conjunct1, rule_format, OF n(5) e1]
  have a: "at4 out 0 0 1 3 = 7" using r1 [THEN conjunct1] w3 by simp
  have b: "at4 out 0 0 1 0 = 0" using r1 [THEN conjunct2, rule_format, OF n(6) n(7)] .
  have c: "at4 out 0 0 0 1 = 5" using r0 [THEN conjunct1] w1 by simp
  from o a b c have "\<exists>out. decompose ?V ?L = Inr out \<and> shape out = [1, 1, 2, 4]
          \<and> at4 out 0 0 1 3 = 7 \<and> at4 out 0 0 1 0 = 0 \<and> at4 out 0 0 0 1 = 5"
    by (intro exI [of _ out] conjI)
  with h show ?thesis by (intro conjI)
qed

subsection \<open>Mismatched shapes\<close>

text \<open>
  The code never compares the two shapes. A labelmap whose shape does not fit the volume
  makes the boolean indexing raise, but only for a label that occurs in the labelmap:
  the indexing is guarded by \<^verbatim>\<open>np.any(mask)\<close>.
\<close>

lemma np_any_eq_mask: "np_any (eq_mask seg lab) \<longleftrightarrow> lab \<in> set (data seg)"
  by (auto simp: np_any_def eq_mask_def)

lemma fill_channels_misfit:
  assumes "\<forall>(s, m) \<in> set ms. \<not> mask_fits (shape m) (shape vol)"
  shows "fill_channels vol ms out =
           (if \<exists>(s, m) \<in> set ms. np_any m then Inl IndexError else Inr out)"
  using assms
proof (induction ms arbitrary: out)
  case Nil
  then show ?case by simp
next
  case (Cons a ms)
  obtain s m where a: "a = (s, m)" by (cases a)
  have nf: "\<not> mask_fits (shape m) (shape vol)" using Cons.prems a by simp
  have rest: "\<forall>(s, m) \<in> set ms. \<not> mask_fits (shape m) (shape vol)" using Cons.prems by simp
  show ?case
  proof (cases "np_any m")
    case True
    then have "fill_channel vol s m out = Inl IndexError"
      using nf by (simp add: fill_channel_def getitem_mask_def)
    then show ?thesis using True a by simp
  next
    case False
    then have "fill_channel vol s m out = Inr out" by (simp add: fill_channel_def)
    then show ?thesis using False a Cons.IH [OF rest] by simp
  qed
qed

lemma decompose_misfit:
  assumes "shape vol = [H, W, Z]" "\<not> mask_fits (shape seg) (shape vol)"
  shows "decompose vol seg =
           (if \<exists>v \<in> set (data seg). v \<in> set LABELS
            then Inl IndexError else Inr (np_zeros [H, W, Z, 4]))"
proof -
  let ?ms = "enumerate 0 (map (eq_mask seg) LABELS)"
  have len: "length LABELS = 4" by (simp add: LABELS_def)
  have sh: "\<forall>(s, m) \<in> set ?ms. \<not> mask_fits (shape m) (shape vol)"
    using assms(2) by (auto simp: in_set_enumerate_eq eq_mask_def)
  have ex: "(\<exists>(s, m) \<in> set ?ms. np_any m) \<longleftrightarrow> (\<exists>v \<in> set (data seg). v \<in> set LABELS)"
    by (auto simp: LABELS_def np_any_eq_mask)
  have "decompose vol seg = fill_channels vol ?ms (np_zeros [H, W, Z, 4])"
    unfolding decompose_def Let_def len using assms(1) by simp
  then show ?thesis using fill_channels_misfit [OF sh] ex by simp
qed

lemma misfit_3d: "length ms \<ge> length shp \<Longrightarrow> ms \<noteq> shp \<Longrightarrow> \<not> mask_fits ms shp"
  by (auto simp: mask_fits_def)

text \<open>
  C2, as amended: for a volume of shape \<open>(H, W, Z)\<close> and a labelmap with at least three
  axes and a different shape, the decomposition raises \<^verbatim>\<open>IndexError\<close> if some element
  of the labelmap is one of the labels, and otherwise returns the all-zero array of
  shape \<open>(H, W, Z, 4)\<close>. Neither array is truncated or padded.
\<close>

theorem decompose_shape_mismatch:
  assumes "shape vol = [H, W, Z]" "3 \<le> length (shape seg)" "shape seg \<noteq> shape vol"
  shows "decompose vol seg =
           (if \<exists>v \<in> set (data seg). v \<in> set LABELS
            then Inl IndexError else Inr (np_zeros [H, W, Z, 4]))"
proof -
  have "\<not> mask_fits (shape seg) (shape vol)"
    using assms by (intro misfit_3d) simp_all
  then show ?thesis using assms(1) by (rule decompose_misfit [rotated])
qed

theorem decompose_shape_mismatch_witness:
  "shape \<lparr>shape = [1, 1, 1], data = [5 :: rat]\<rparr> = [1, 1, 1]
   \<and> 3 \<le> length (shape \<lparr>shape = [1, 1, 2], data = [4 :: int, 1]\<rparr>)
   \<and> shape \<lparr>shape = [1, 1, 2], data = [4 :: int, 1]\<rparr> \<noteq> shape \<lparr>shape = [1, 1, 1], data = [5 :: rat]\<rparr>
   \<and> decompose \<lparr>shape = [1, 1, 1], data = [5 :: rat]\<rparr> \<lparr>shape = [1, 1, 2], data = [4, 1]\<rparr>
        = Inl IndexError"
  using decompose_shape_mismatch
    [of "\<lparr>shape = [1, 1, 1], data = [5 :: rat]\<rparr>" 1 1 1 "\<lparr>shape = [1, 1, 2], data = [4, 1]\<rparr>"]
  by (simp add: LABELS_def)

text \<open>
  C2 as stated fails: the shapes \<open>(1, 1, 1)\<close> and \<open>(1, 1, 2)\<close> differ, no element of the
  labelmap is a label of the label set, and the decomposition succeeds.
\<close>

theorem decompose_shape_mismatch_counterexample:
  "shape \<lparr>shape = [1, 1, 2], data = [4 :: int, 4]\<rparr> \<noteq> shape \<lparr>shape = [1, 1, 1], data = [5 :: rat]\<rparr>
   \<and> decompose \<lparr>shape = [1, 1, 1], data = [5 :: rat]\<rparr> \<lparr>shape = [1, 1, 2], data = [4, 4]\<rparr>
       = Inr \<lparr>shape = [1, 1, 1, 4], data = [0, 0, 0, 0]\<rparr>"
  by (simp add: decompose_def LABELS_def fill_channel_def np_any_def eq_mask_def np_zeros_def)

text \<open>
  A labelmap with fewer axes whose shape is the leading part of the volume's shape is
  accepted as well: each of its elements labels a whole row of the volume.
\<close>

lemma decompose_lower_rank_labelmap:
  "decompose \<lparr>shape = [1, 2, 2], data = [5 :: rat, 7, 8, 9]\<rparr> \<lparr>shape = [1, 2], data = [2, 0]\<rparr>
     = Inr \<lparr>shape = [1, 2, 2, 4], data = [0, 0, 5, 0, 0, 0, 7, 0, 8, 0, 0, 0, 9, 0, 0, 0]\<rparr>"
  by code_simp

subsection \<open>The cast of the labelmap\<close>

lemma at3_astype:
  assumes "shape a = [H, W, Z]" "wf_array a" "i < H" "j < W" "k < Z"
  shows "at3 (astype f a) i j k = f (at3 a i j k)"
proof -
  have "(i * W + j) * Z + k < prod_list [H, W, Z]" using assms(3-5) by (rule voxel_index_bound)
  then have "(i * W + j) * Z + k < length (data a)" using assms(1,2) by (simp add: wf_array_def)
  then show ?thesis using assms(1) by (simp add: at3_def astype_def)
qed

text \<open>
  The decomposition applied to a labelmap cast with \<open>astype_int32\<close>: a value within the
  32-bit range counts as the label obtained by truncating it toward zero.
\<close>

lemma decompose_after_cast:
  assumes "shape vol = [H, W, Z]" "wf_array vol" "shape seg = [H, W, Z]" "wf_array seg"
    and "i < H" "j < W" "k < Z"
    and "- 2147483649 < at3 seg i j k" "at3 seg i j k < 2147483648"
  shows "\<exists>out. decompose vol (astype astype_int32 seg) = Inr out \<and>
     (\<forall>s < 4. at4 out i j k s =
        (if (if 0 \<le> at3 seg i j k then \<lfloor>at3 seg i j k\<rfloor> else \<lceil>at3 seg i j k\<rceil>) = LABELS ! s
         then at3 vol i j k else 0)) \<and>
     (at3 seg i j k = 19 / 10 \<longrightarrow> at4 out i j k 1 = at3 vol i j k) \<and>
     (at3 seg i j k = 1 / 2 \<longrightarrow> at4 out i j k 0 = at3 vol i j k)"
proof -
  let ?seg = "astype astype_int32 seg"
  let ?v = "at3 seg i j k"
  let ?tr = "if 0 \<le> ?v then \<lfloor>?v\<rfloor> else \<lceil>?v\<rceil>"
  have sh: "shape ?seg = [H, W, Z]" and wf: "wf_array ?seg"
    using assms(3,4) by (simp_all add: astype_def wf_array_def)
  obtain out where all: "decompose vol ?seg = Inr out \<and> shape out = [H, W, Z, 4] \<and>
      wf_array out \<and>
      (\<forall>p < prod_list [H, W, Z]. \<forall>t < 4.
         data out ! (p * 4 + t) = (if data ?seg ! p = LABELS ! t then data vol ! p else 0))"
    using decompose_pointwise [OF assms(1,2) sh wf] ..
  note o = all [THEN conjunct1] all [THEN conjunct2, THEN conjunct1]
  note pt = all [THEN conjunct2, THEN conjunct2, THEN conjunct2]
  let ?p = "(i * W + j) * Z + k"
  have p: "?p < prod_list [H, W, Z]" using assms(5-7) by (rule voxel_index_bound)
  have a4: "\<And>t. at4 out i j k t = data out ! (?p * 4 + t)"
    using o(2) by (simp add: at4_def)
  have v3: "at3 vol i j k = data vol ! ?p" using assms(1) by (simp add: at3_def)
  have "at3 ?seg i j k = astype_int32 ?v"
    using assms(3-7) by (rule at3_astype)
  then have s3: "data ?seg ! ?p = ?tr"
    using sh assms(8,9) by (simp add: at3_def astype_int32_def)
  have f: "at4 out i j k t = (if ?tr = LABELS ! t then at3 vol i j k else 0)"
    if t: "t < 4" for t
  proof -
    have "data out ! (?p * 4 + t) = (if data ?seg ! ?p = LABELS ! t then data vol ! ?p else 0)"
      using pt p t by blast
    then show ?thesis unfolding a4 v3 s3 .
  qed
  have e1: "?v = 19 / 10 \<longrightarrow> at4 out i j k 1 = at3 vol i j k"
  proof
    assume eq: "?v = 19 / 10"
    have "(if 0 \<le> (19 / 10 :: rat) then \<lfloor>19 / 10 :: rat\<rfloor> else \<lceil>19 / 10 :: rat\<rceil>) = LABELS ! 1"
      by (simp add: LABELS_def floor_eq_iff)
    then have "?tr = LABELS ! 1" unfolding eq .
    then show "at4 out i j k 1 = at3 vol i j k" using f [of 1] by simp
  qed
  have e0: "?v = 1 / 2 \<longrightarrow> at4 out i j k 0 = at3 vol i j k"
  proof
    assume eq: "?v = 1 / 2"
    have "(if 0 \<le> (1 / 2 :: rat) then \<lfloor>1 / 2 :: rat\<rfloor> else \<lceil>1 / 2 :: rat\<rceil>) = LABELS ! 0"
      by (simp add: LABELS_def floor_eq_iff)
    then have "?tr = LABELS ! 0" unfolding eq .
    then show "at4 out i j k 0 = at3 vol i j k" using f [of 0] by simp
  qed
  show ?thesis using o(1) f e1 e0 by (intro exI [of _ out] conjI allI impI) auto
qed

subsection \<open>Volume loader\<close>

text \<open>
  Lines 31 to 34 of \<^verbatim>\<open>load_3d\<close>, on the array that \<^verbatim>\<open>img.get_fdata()\<close> returns:
  \<^verbatim>\<open>data[..., 0]\<close> is taken once when the array has more than three axes (and raises
  \<^verbatim>\<open>IndexError\<close> when the last axis is empty), then every element is converted by
  \<^verbatim>\<open>astype(np.float32)\<close>. The rounding to single precision is the parameter
  \<open>to_float32\<close>.
\<close>

definition load_3d_data :: "(rat \<Rightarrow> rat) \<Rightarrow> rat ndarray \<Rightarrow> error + rat ndarray" where
  "load_3d_data to_float32 d =
     (if 3 < length (shape d)
      then (if last (shape d) = 0 then Inl IndexError
            else Inr (astype to_float32 (channel_view d 0)))
      else Inr (astype to_float32 d))"

text \<open>
  The conversion \<^verbatim>\<open>astype(np.float32)\<close> of a finite double, given as the rational it
  denotes: rounding to the nearest number with a significand of 24 bits, ties to the even
  significand; the exponent is that of the value, and at least \<open>-126\<close> (below which the
  single-precision numbers are equally spaced). A magnitude that rounds beyond the largest
  finite single-precision number becomes an infinity in numpy; the rationals have none,
  and this definition is meant for the magnitudes below \<open>2 ^ 128\<close> only.
\<close>

definition round_half_even :: "rat \<Rightarrow> int" where
  "round_half_even x =
     (let f = \<lfloor>x\<rfloor>; d = x - of_int f
      in if d < 1 / 2 then f else if 1 / 2 < d then f + 1 else if even f then f else f + 1)"

definition float32_exponent :: "rat \<Rightarrow> int" where
  "float32_exponent v =
     (case find (\<lambda>e. 2 powi e \<le> \<bar>v\<bar>) (map (\<lambda>k. 127 - int k) [0..<253]) of
        Some e \<Rightarrow> e
      | None \<Rightarrow> - 126)"

definition round_float32 :: "rat \<Rightarrow> rat" where
  "round_float32 v =
     (let q = 2 powi (float32_exponent v - 23)
      in of_int (round_half_even (v / q)) * q)"

lemma load_3d_four_dimensional:
  assumes "shape d = [H, W, Z, T]" "0 < T"
  shows "\<exists>r. load_3d_data to_float32 d = Inr r \<and> shape r = [H, W, Z] \<and> wf_array r \<and>
           (\<forall>p < prod_list [H, W, Z]. data r ! p = to_float32 (data d ! (p * T)))"
  using assms by (simp add: load_3d_data_def astype_def channel_view_def wf_array_def)

lemma load_3d_at_most_three_dimensional:
  "length (shape d) \<le> 3 \<Longrightarrow> load_3d_data to_float32 d = Inr (astype to_float32 d)"
  by (simp add: load_3d_data_def)

text \<open>
  C7, at a stored field with five axes, of shape \<open>(1, 1, 1, 2, 2)\<close>: the loader returns
  an array with four axes, of shape \<open>(1, 1, 1, 2)\<close>, not a 3D array.
\<close>

theorem load_3d_five_dimensional:
  "load_3d_data to_float32 \<lparr>shape = [1, 1, 1, 2, 2], data = [1, 2, 3, 4]\<rparr>
     = Inr \<lparr>shape = [1, 1, 1, 2], data = [to_float32 1, to_float32 3]\<rparr>
   \<and> length [1, 1, 1, 2 :: nat] \<noteq> 3"
  by (simp add: load_3d_data_def astype_def channel_view_def upt_conv_Cons)

subsection \<open>Images and the file system\<close>

text \<open>
  A NIfTI image is its data array (as \<^verbatim>\<open>get_fdata\<close> returns it), its affine and its
  header; of the header only the data type is distinguished. The file system maps a path
  to a directory, a NIfTI file or some other file. What the operating system decides is
  part of the state: \<open>unwritable\<close> are the paths that cannot be written, \<open>undeletable\<close>
  the paths whose removal is refused (removing a name needs the permission of the
  directory, overwriting a file that of the file, so the two are independent).

  \<open>path_join\<close> is \<^verbatim>\<open>dir / name\<close> for a relative name, without pathlib's normalisation.
  \<open>path_exists\<close> is \<^verbatim>\<open>Path.exists\<close>, \<open>nib_load\<close> is \<^verbatim>\<open>nib.load\<close>, \<open>nib_save\<close> is
  \<^verbatim>\<open>nib.save\<close> and \<open>unlink\<close> is \<^verbatim>\<open>Path.unlink\<close>; a failing call leaves the file system
  as it was.
\<close>

datatype dtype = Float32 | Float64 | Int16 | UInt8

record header =
  data_dtype :: dtype
  other_fields :: string

record nifti_image =
  dataobj :: "rat ndarray"
  affine :: "rat list list"
  header :: header

datatype entry = Directory | NiftiFile nifti_image | OtherFile

record world =
  files :: "string \<Rightarrow> entry option"
  unwritable :: "string \<Rightarrow> bool"
  undeletable :: "string \<Rightarrow> bool"

definition path_join :: "string \<Rightarrow> string \<Rightarrow> string" where
  "path_join d n = d @ ''/'' @ n"

definition path_exists :: "world \<Rightarrow> string \<Rightarrow> bool" where
  "path_exists w p = (files w p \<noteq> None)"

definition nib_load :: "world \<Rightarrow> string \<Rightarrow> error + nifti_image" where
  "nib_load w p =
     (case files w p of
        None \<Rightarrow> Inl FileNotFoundError
      | Some (NiftiFile img) \<Rightarrow> Inr img
      | Some _ \<Rightarrow> Inl ImageFileError)"

definition nib_save :: "nifti_image \<Rightarrow> string \<Rightarrow> world \<Rightarrow> (error + unit) \<times> world" where
  "nib_save img p w =
     (if unwritable w p \<or> files w p = Some Directory then (Inl PermissionError, w)
      else (Inr (), w\<lparr>files := (files w)(p \<mapsto> NiftiFile img)\<rparr>))"

definition unlink :: "string \<Rightarrow> world \<Rightarrow> (error + unit) \<times> world" where
  "unlink p w =
     (if files w p = None then (Inl FileNotFoundError, w)
      else if undeletable w p \<or> files w p = Some Directory then (Inl PermissionError, w)
      else (Inr (), w\<lparr>files := (files w)(p := None)\<rparr>))"

text \<open>The function \<^verbatim>\<open>load_3d\<close>: the image is read, then its data go through \<open>load_3d_data\<close>.\<close>

definition load_3d ::
  "(rat \<Rightarrow> rat) \<Rightarrow> world \<Rightarrow> string \<Rightarrow> error + rat ndarray \<times> rat list list \<times> header" where
  "load_3d to_float32 w path =
     (case nib_load w path of
        Inl e \<Rightarrow> Inl e
      | Inr img \<Rightarrow>
          (case load_3d_data to_float32 (dataobj img) of
             Inl e \<Rightarrow> Inl e
           | Inr d \<Rightarrow> Inr (d, affine img, header img)))"

subsection \<open>Segmentation, conversion and the pipeline\<close>

text \<open>
  \<^verbatim>\<open>perform_segmentation_from_filename\<close>. Every exception leaves through the
  \<^verbatim>\<open>except\<close> clause, which logs and raises it again: the result is the error and the
  file system at the point of failure.
\<close>

definition perform_segmentation_from_filename ::
  "(rat \<Rightarrow> rat) \<Rightarrow> string \<Rightarrow> string \<Rightarrow> string \<Rightarrow> world \<Rightarrow> (error + string) \<times> world" where
  "perform_segmentation_from_filename to_float32 study_dir filename seg_filename w =
     (case extract_modality_from_filename filename of
        Inl e \<Rightarrow> (Inl e, w)
      | Inr modality \<Rightarrow>
          (let seg_file = path_join study_dir seg_filename;
               input_file = path_join study_dir filename
           in if \<not> path_exists w input_file then (Inl FileNotFoundError, w)
              else if \<not> path_exists w seg_file then (Inl FileNotFoundError, w)
              else (case load_3d to_float32 w seg_file of
                      Inl e \<Rightarrow> (Inl e, w)
                    | Inr (seg, aff, hdr) \<Rightarrow>
                        (case load_3d to_float32 w input_file of
                           Inl e \<Rightarrow> (Inl e, w)
                         | Inr (vol, _, _) \<Rightarrow>
                             (case decompose vol (astype astype_int32 seg) of
                                Inl e \<Rightarrow> (Inl e, w)
                              | Inr out \<Rightarrow>
                                  (let out_path =
                                         path_join study_dir
                                           (segmented_filename_of filename modality);
                                       h = hdr\<lparr>data_dtype := Float32\<rparr>
                                   in (case nib_save
                                              \<lparr>dataobj = out, affine = aff, header = h\<rparr>
                                              out_path w of
                                         (Inl e, w') \<Rightarrow> (Inl e, w')
                                       | (Inr _, w') \<Rightarrow> (Inr out_path, w'))))))))"

text \<open>
  The module \<^verbatim>\<open>encode\<close> is external to the controller; the three functions imported
  from it are parameters, collected in a record. The configuration loader reads the file system,
  the encoder may change it and may fail, leaving any file system behind.
\<close>

type_synonym config = "(string \<times> string) list"

record encode_module =
  load_user_config :: "string \<Rightarrow> world \<Rightarrow> error + config option"
  compute_spacing_mm :: "rat list list \<Rightarrow> rat list"
  export_labelmap_weighted_case ::
    "rat ndarray \<Rightarrow> rat list list \<Rightarrow> rat list \<Rightarrow> string option \<Rightarrow> string \<Rightarrow> bool \<Rightarrow> bool
       \<Rightarrow> world \<Rightarrow> (error + unit) \<times> world"

text \<open>\<^verbatim>\<open>perform_conversion\<close>: configuration, image, spacing, transfer function, encoder.\<close>

definition perform_conversion ::
  "(rat \<Rightarrow> rat) \<Rightarrow> encode_module \<Rightarrow> string \<Rightarrow> string \<Rightarrow> string \<Rightarrow> world
     \<Rightarrow> (error + unit) \<times> world" where
  "perform_conversion to_float32 enc input_file output_file config_path w =
     (case load_user_config enc config_path w of
        Inl e \<Rightarrow> (Inl e, w)
      | Inr user_cfg \<Rightarrow>
          (case nib_load w input_file of
             Inl e \<Rightarrow> (Inl e, w)
           | Inr img \<Rightarrow>
               (let vol_full = astype to_float32 (dataobj img);
                    aff = affine img;
                    spacing_mm = compute_spacing_mm enc aff;
                    user_tf = (case user_cfg of
                                 None \<Rightarrow> None
                               | Some cfg \<Rightarrow> map_of cfg ''transfer_function'')
                in export_labelmap_weighted_case enc vol_full aff spacing_mm user_tf
                     output_file False False w)))"

text \<open>
  \<^verbatim>\<open>perform_segmentation_and_conversion_from_filename\<close>. The deletion of the
  intermediate file is inside the same \<^verbatim>\<open>try\<close> block as everything else, so an
  exception of \<^verbatim>\<open>unlink\<close> is raised again like any other.
\<close>

definition study_dir_of :: "string \<Rightarrow> string" where
  "study_dir_of study_code = path_join (path_join ''storage'' ''studies'') study_code"

definition perform_segmentation_and_conversion_from_filename ::
  "(rat \<Rightarrow> rat) \<Rightarrow> encode_module \<Rightarrow> string \<Rightarrow> string \<Rightarrow> string \<Rightarrow> string \<Rightarrow> world
     \<Rightarrow> (error + string \<times> string) \<times> world" where
  "perform_segmentation_and_conversion_from_filename to_float32 enc study_code filename
       seg_filename config_path w =
     (let study_dir = study_dir_of study_code
      in if \<not> path_exists w study_dir then (Inl FileNotFoundError, w)
         else (case perform_segmentation_from_filename to_float32 study_dir filename
                      seg_filename w of
                 (Inl e, w1) \<Rightarrow> (Inl e, w1)
               | (Inr segmented_file, w1) \<Rightarrow>
                   (case extract_modality_from_filename filename of
                      Inl e \<Rightarrow> (Inl e, w1)
                    | Inr modality \<Rightarrow>
                        (let vrdf_file =
                               path_join study_dir (vrdf_filename_of filename modality)
                         in (case perform_conversion to_float32 enc segmented_file vrdf_file
                                    config_path w1 of
                               (Inl e, w2) \<Rightarrow> (Inl e, w2)
                             | (Inr _, w2) \<Rightarrow>
                                 (case (if path_exists w2 segmented_file
                                        then unlink segmented_file w2
                                        else (Inr (), w2)) of
                                    (Inl e, w3) \<Rightarrow> (Inl e, w3)
                                  | (Inr _, w3) \<Rightarrow>
                                      (Inr (segmented_file,
                                            actual_vrdf_filename_of filename modality),
                                       w3)))))))"

subsection \<open>A sample study\<close>

text \<open>
  A study directory with a volume of shape \<open>(1, 1, 2)\<close> and its labelmap, whose stored
  values are \<open>1.9\<close> and \<open>0.5\<close>; the parameter says which paths refuse deletion.
  \<open>sample_segmented\<close> is the intermediate image the segmentation writes.
  \<open>sample_world_float64\<close> is the same study with a labelmap stored in double precision
  whose first value, \<open>1 - 2 ^ - 30\<close>, is not a single-precision number. Two stand-ins
  for the encoder: one that always fails, and one that writes its output at exactly the
  requested path.
\<close>

definition sample_header :: header where
  "sample_header = \<lparr>data_dtype = Int16, other_fields = ''''\<rparr>"

definition sample_world :: "(string \<Rightarrow> bool) \<Rightarrow> world" where
  "sample_world ud =
     \<lparr>files = [''storage/studies/s1'' \<mapsto> Directory,
               ''storage/studies/s1/p-t1n.nii.gz'' \<mapsto>
                 NiftiFile \<lparr>dataobj = \<lparr>shape = [1, 1, 2], data = [5, 7]\<rparr>,
                            affine = [], header = sample_header\<rparr>,
               ''storage/studies/s1/p-seg.nii.gz'' \<mapsto>
                 NiftiFile \<lparr>dataobj = \<lparr>shape = [1, 1, 2], data = [19 / 10, 1 / 2]\<rparr>,
                            affine = [], header = sample_header\<rparr>],
      unwritable = (\<lambda>p. False),
      undeletable = ud\<rparr>"

definition sample_segmented :: nifti_image where
  "sample_segmented =
     \<lparr>dataobj = \<lparr>shape = [1, 1, 2, 4], data = [0, 5, 0, 0, 7, 0, 0, 0]\<rparr>,
      affine = [], header = sample_header\<lparr>data_dtype := Float32\<rparr>\<rparr>"

definition sample_world_float64 :: world where
  "sample_world_float64 =
     \<lparr>files = [''storage/studies/s1'' \<mapsto> Directory,
               ''storage/studies/s1/p-t1n.nii.gz'' \<mapsto>
                 NiftiFile \<lparr>dataobj = \<lparr>shape = [1, 1, 2], data = [5, 7]\<rparr>,
                            affine = [], header = sample_header\<rparr>,
               ''storage/studies/s1/p-seg.nii.gz'' \<mapsto>
                 NiftiFile \<lparr>dataobj = \<lparr>shape = [1, 1, 2],
                                        data = [1073741823 / 1073741824, 1 / 2]\<rparr>,
                            affine = [], header = sample_header\<rparr>],
      unwritable = (\<lambda>p. False),
      undeletable = (\<lambda>p. False)\<rparr>"

definition failing_encoder :: encode_module where
  "failing_encoder =
     \<lparr>load_user_config = (\<lambda>p w. Inr None),
      compute_spacing_mm = (\<lambda>a. []),
      export_labelmap_weighted_case = (\<lambda>v a sp tf out d s w. (Inl EncoderFailure, w))\<rparr>"

definition plain_encoder :: encode_module where
  "plain_encoder =
     \<lparr>load_user_config = (\<lambda>p w. Inr None),
      compute_spacing_mm = (\<lambda>a. []),
      export_labelmap_weighted_case =
        (\<lambda>v a sp tf out d s w. (Inr (), w\<lparr>files := (files w)(out \<mapsto> OtherFile)\<rparr>))\<rparr>"

subsection \<open>Properties of the pipeline\<close>

lemma segmentation_success:
  assumes "perform_segmentation_from_filename to_float32 dir filename seg_filename w = (Inr p, w1)"
  shows "\<exists>m. extract_modality_from_filename filename = Inr m \<and>
           p = path_join dir (segmented_filename_of filename m) \<and> path_exists w1 p"
  using assms
  by (auto simp: perform_segmentation_from_filename_def Let_def nib_save_def path_exists_def
      split: sum.splits prod.splits if_splits)

lemma conversion_keeps:
  assumes "\<forall>v a sp tf out d s w'. path_exists w' p \<longrightarrow>
             path_exists (snd (export_labelmap_weighted_case enc v a sp tf out d s w')) p"
    and "path_exists w p"
  shows "path_exists (snd (perform_conversion to_float32 enc inp outp cfg w)) p"
  using assms by (auto simp: perform_conversion_def Let_def split: sum.splits)

lemma pipeline_after_segmentation:
  assumes "path_exists w (study_dir_of study_code)"
    and "perform_segmentation_from_filename to_float32 (study_dir_of study_code) filename
           seg_filename w = (Inr interm, w1)"
    and "extract_modality_from_filename filename = Inr m"
  shows "perform_segmentation_and_conversion_from_filename to_float32 enc study_code filename
           seg_filename config_path w =
         (case perform_conversion to_float32 enc interm
                 (path_join (study_dir_of study_code) (vrdf_filename_of filename m))
                 config_path w1 of
            (Inl e, w2) \<Rightarrow> (Inl e, w2)
          | (Inr _, w2) \<Rightarrow>
              (case (if path_exists w2 interm then unlink interm w2 else (Inr (), w2)) of
                 (Inl e, w3) \<Rightarrow> (Inl e, w3)
               | (Inr _, w3) \<Rightarrow> (Inr (interm, actual_vrdf_filename_of filename m), w3)))"
  using assms by (simp add: perform_segmentation_and_conversion_from_filename_def Let_def)

lemma unlink_success: "unlink p w = (Inr u, w') \<Longrightarrow> \<not> path_exists w' p"
  by (auto simp: unlink_def path_exists_def split: if_splits)

lemma cleanup_absent:
  assumes "(if path_exists w2 p then unlink p w2 else (Inr (), w2)) = (Inr u, w3)"
  shows "\<not> path_exists w3 p"
  using assms unlink_success by (auto split: if_splits)

lemma pipeline_success:
  assumes "perform_segmentation_and_conversion_from_filename to_float32 enc study_code filename
           seg_filename config_path w = (Inr r, w')"
  shows "\<exists>m w1 w2 u. extract_modality_from_filename filename = Inr m \<and>
           path_exists w (study_dir_of study_code) \<and>
           perform_segmentation_from_filename to_float32 (study_dir_of study_code) filename
             seg_filename w = (Inr (fst r), w1) \<and>
           perform_conversion to_float32 enc (fst r)
                 (path_join (study_dir_of study_code) (vrdf_filename_of filename m))
                 config_path w1 = (Inr (), w2) \<and>
           (if path_exists w2 (fst r) then unlink (fst r) w2 else (Inr (), w2)) = (Inr u, w') \<and>
           snd r = actual_vrdf_filename_of filename m"
  using assms
  by (auto simp: perform_segmentation_and_conversion_from_filename_def Let_def
      split: sum.splits prod.splits if_splits)

text \<open>
  C3: when the run reaches the encoding step (the study directory exists and the
  segmentation has returned the intermediate path), a failure of the conversion is the
  failure of the run, the file system is left as the conversion left it, and the
  intermediate file still exists, provided the external encoder does not remove it
  itself; when the conversion succeeds and the run reports success, the intermediate
  file is absent afterwards.
\<close>

theorem cleanup_on_success_only:
  assumes dir: "path_exists w (study_dir_of study_code)"
    and seg: "perform_segmentation_from_filename to_float32 (study_dir_of study_code) filename
           seg_filename w = (Inr interm, w1)"
    and keep: "\<forall>v a sp tf out d s w'. path_exists w' interm \<longrightarrow>
             path_exists (snd (export_labelmap_weighted_case enc v a sp tf out d s w')) interm"
  shows "\<exists>m. extract_modality_from_filename filename = Inr m \<and>
     (\<forall>e w2. perform_conversion to_float32 enc interm
                 (path_join (study_dir_of study_code) (vrdf_filename_of filename m))
                 config_path w1 = (Inl e, w2) \<longrightarrow>
        perform_segmentation_and_conversion_from_filename to_float32 enc study_code filename
           seg_filename config_path w = (Inl e, w2) \<and> path_exists w2 interm) \<and>
     (\<forall>w2 r w3. perform_conversion to_float32 enc interm
                 (path_join (study_dir_of study_code) (vrdf_filename_of filename m))
                 config_path w1 = (Inr (), w2) \<longrightarrow>
        perform_segmentation_and_conversion_from_filename to_float32 enc study_code filename
           seg_filename config_path w = (Inr r, w3) \<longrightarrow> \<not> path_exists w3 interm)"
proof -
  obtain m where m: "extract_modality_from_filename filename = Inr m"
    and ex: "path_exists w1 interm"
    using segmentation_success [OF seg] by blast
  note run = pipeline_after_segmentation [OF dir seg m, of enc config_path]
  let ?conv = "perform_conversion to_float32 enc interm
                 (path_join (study_dir_of study_code) (vrdf_filename_of filename m))
                 config_path w1"
  have fail: "perform_segmentation_and_conversion_from_filename to_float32 enc study_code
        filename seg_filename config_path w = (Inl e, w2) \<and> path_exists w2 interm"
    if c: "?conv = (Inl e, w2)" for e w2
  proof -
    have "path_exists (snd ?conv) interm" using keep ex by (rule conversion_keeps)
    then have "path_exists w2 interm" using c by simp
    then show ?thesis using run c by simp
  qed
  have ok: "\<not> path_exists w3 interm"
    if c: "?conv = (Inr (), w2)"
      and r: "perform_segmentation_and_conversion_from_filename to_float32 enc study_code
        filename seg_filename config_path w = (Inr r, w3)" for w2 r w3
  proof -
    from run c r obtain u where
      "(if path_exists w2 interm then unlink interm w2 else (Inr (), w2)) = (Inr u, w3)"
      by (auto split: prod.splits sum.splits)
    then show ?thesis by (rule cleanup_absent)
  qed
  show ?thesis using m fail ok by blast
qed

text \<open>
  C5, as amended: when the conversion succeeds and the deletion of the intermediate file
  fails, the run fails with the error of the deletion; no artifact name is reported.
\<close>

theorem deletion_failure_propagates:
  assumes dir: "path_exists w (study_dir_of study_code)"
    and seg: "perform_segmentation_from_filename to_float32 (study_dir_of study_code) filename
           seg_filename w = (Inr interm, w1)"
    and m: "extract_modality_from_filename filename = Inr m"
    and conv: "perform_conversion to_float32 enc interm
                 (path_join (study_dir_of study_code) (vrdf_filename_of filename m))
                 config_path w1 = (Inr (), w2)"
    and ex: "path_exists w2 interm"
    and del: "unlink interm w2 = (Inl e, w3)"
  shows "perform_segmentation_and_conversion_from_filename to_float32 enc study_code filename
           seg_filename config_path w = (Inl e, w3)"
  using pipeline_after_segmentation [OF dir seg m, of enc config_path] conv ex del by simp

text \<open>
  C9: on success the first component of the result is the path of the intermediate
  file, which the segmentation step of this run has written and which no longer exists
  when the run returns.
\<close>

theorem returned_intermediate_path_deleted:
  assumes "perform_segmentation_and_conversion_from_filename to_float32 enc study_code filename
           seg_filename config_path w = (Inr r, w')"
  shows "\<exists>m w1. extract_modality_from_filename filename = Inr m \<and>
           perform_segmentation_from_filename to_float32 (study_dir_of study_code) filename
             seg_filename w = (Inr (fst r), w1) \<and>
           fst r = path_join (study_dir_of study_code) (segmented_filename_of filename m) \<and>
           path_exists w1 (fst r) \<and> \<not> path_exists w' (fst r)"
proof -
  obtain m w1 w2 u where m: "extract_modality_from_filename filename = Inr m"
    and seg: "perform_segmentation_from_filename to_float32 (study_dir_of study_code) filename
             seg_filename w = (Inr (fst r), w1)"
    and cl: "(if path_exists w2 (fst r) then unlink (fst r) w2 else (Inr (), w2)) = (Inr u, w')"
    using pipeline_success [OF assms] by blast
  obtain m' where m': "extract_modality_from_filename filename = Inr m'"
    and p: "fst r = path_join (study_dir_of study_code) (segmented_filename_of filename m')"
    and ex: "path_exists w1 (fst r)"
    using segmentation_success [OF seg] by blast
  have "m' = m" using m m' by simp
  moreover have "\<not> path_exists w' (fst r)" using cl by (rule cleanup_absent)
  ultimately show ?thesis using m seg p ex by blast
qed

text \<open>
  C8, as amended: on success the reported name is the requested name
  \<^verbatim>\<open><base>-<modality>.vrdf\<close> with the fixed suffix \<^verbatim>\<open>_lw\<close> before the extension. It is
  computed from the input file name alone, whatever the encoder has written.
\<close>

theorem reported_name_has_fixed_suffix:
  assumes "perform_segmentation_and_conversion_from_filename to_float32 enc study_code filename
           seg_filename config_path w = (Inr r, w')"
  shows "\<exists>m. extract_modality_from_filename filename = Inr m \<and>
           vrdf_filename_of filename m = base_name_of filename m @ ''-'' @ m @ ''.vrdf'' \<and>
           snd r = base_name_of filename m @ ''-'' @ m @ ''_lw.vrdf''"
  using pipeline_success [OF assms]
  by (auto simp: actual_vrdf_filename_of_def vrdf_filename_of_def)

lemma segmentation_of_volumes:
  assumes m: "extract_modality_from_filename filename = Inr m"
    and vol: "files w (path_join dir filename) = Some (NiftiFile vimg)"
      "length (shape (dataobj vimg)) \<le> 3"
    and seg: "files w (path_join dir seg_filename) = Some (NiftiFile simg)"
      "length (shape (dataobj simg)) \<le> 3"
    and dec: "decompose (astype to_float32 (dataobj vimg))
                (astype astype_int32 (astype to_float32 (dataobj simg))) = Inr out"
    and wr: "\<not> unwritable w (path_join dir (segmented_filename_of filename m))"
      "files w (path_join dir (segmented_filename_of filename m)) \<noteq> Some Directory"
  shows "perform_segmentation_from_filename to_float32 dir filename seg_filename w =
           (Inr (path_join dir (segmented_filename_of filename m)),
            w\<lparr>files := (files w)(path_join dir (segmented_filename_of filename m) \<mapsto>
                 NiftiFile \<lparr>dataobj = out, affine = affine simg,
                            header = (header simg)\<lparr>data_dtype := Float32\<rparr>\<rparr>)\<rparr>)"
proof -
  have lv: "load_3d to_float32 w (path_join dir filename)
      = Inr (astype to_float32 (dataobj vimg), affine vimg, header vimg)"
    using vol by (simp add: load_3d_def nib_load_def load_3d_at_most_three_dimensional)
  have ls: "load_3d to_float32 w (path_join dir seg_filename)
      = Inr (astype to_float32 (dataobj simg), affine simg, header simg)"
    using seg by (simp add: load_3d_def nib_load_def load_3d_at_most_three_dimensional)
  have ex: "path_exists w (path_join dir filename)" "path_exists w (path_join dir seg_filename)"
    using vol(1) seg(1) by (simp_all add: path_exists_def)
  show ?thesis
    using m ex lv ls dec wr
    by (simp add: perform_segmentation_from_filename_def Let_def nib_save_def)
qed

text \<open>
  C10, as amended: the loader rounds every stored value to single precision, and the
  segmentation casts the loaded labelmap to a 32-bit integer before it computes the masks.
  So a voxel whose stored value rounds to \<open>r\<close>, within the 32-bit range, counts as the
  label obtained by truncating \<open>r\<close> toward zero: in the intermediate image that the
  segmentation writes, the channel of that label holds the voxel's (rounded) intensity and
  the other channels are zero there. A rounded value in \<open>[1, 2)\<close>, such as that of
  \<open>1.9\<close>, goes to the channel of label 1; one in \<open>(-1, 1)\<close>, such as \<open>0.5\<close>, to
  the channel of label 0.
\<close>

theorem stored_labelmap_rounded_then_truncated:
  assumes m: "extract_modality_from_filename filename = Inr m"
    and vol: "files w (path_join dir filename) = Some (NiftiFile vimg)"
      "shape (dataobj vimg) = [H, W, Z]" "wf_array (dataobj vimg)"
    and seg: "files w (path_join dir seg_filename) = Some (NiftiFile simg)"
      "shape (dataobj simg) = [H, W, Z]" "wf_array (dataobj simg)"
    and wr: "\<not> unwritable w (path_join dir (segmented_filename_of filename m))"
      "files w (path_join dir (segmented_filename_of filename m)) \<noteq> Some Directory"
    and ijk: "i < H" "j < W" "k < Z"
    and range: "- 2147483649 < to_float32 (at3 (dataobj simg) i j k)"
      "to_float32 (at3 (dataobj simg) i j k) < 2147483648"
  shows "\<exists>out w'.
     perform_segmentation_from_filename to_float32 dir filename seg_filename w =
       (Inr (path_join dir (segmented_filename_of filename m)), w') \<and>
     files w' (path_join dir (segmented_filename_of filename m)) =
       Some (NiftiFile \<lparr>dataobj = out, affine = affine simg,
                         header = (header simg)\<lparr>data_dtype := Float32\<rparr>\<rparr>) \<and>
     (\<forall>s < 4. at4 out i j k s =
        (if (if 0 \<le> to_float32 (at3 (dataobj simg) i j k)
             then \<lfloor>to_float32 (at3 (dataobj simg) i j k)\<rfloor>
             else \<lceil>to_float32 (at3 (dataobj simg) i j k)\<rceil>) = LABELS ! s
         then to_float32 (at3 (dataobj vimg) i j k) else 0)) \<and>
     (- 1 < to_float32 (at3 (dataobj simg) i j k) \<and> to_float32 (at3 (dataobj simg) i j k) < 1
        \<longrightarrow> at4 out i j k 0 = to_float32 (at3 (dataobj vimg) i j k)) \<and>
     (1 \<le> to_float32 (at3 (dataobj simg) i j k) \<and> to_float32 (at3 (dataobj simg) i j k) < 2
        \<longrightarrow> at4 out i j k 1 = to_float32 (at3 (dataobj vimg) i j k))"
proof -
  let ?vol = "astype to_float32 (dataobj vimg)"
  let ?seg = "astype to_float32 (dataobj simg)"
  let ?r = "to_float32 (at3 (dataobj simg) i j k)"
  let ?tr = "if 0 \<le> ?r then \<lfloor>?r\<rfloor> else \<lceil>?r\<rceil>"
  let ?P = "path_join dir (segmented_filename_of filename m)"
  have sv: "shape ?vol = [H, W, Z]" "wf_array ?vol"
    using vol(2,3) by (simp_all add: astype_def wf_array_def)
  have ss: "shape ?seg = [H, W, Z]" "wf_array ?seg"
    using seg(2,3) by (simp_all add: astype_def wf_array_def)
  have a3s: "at3 ?seg i j k = ?r" using seg(2,3) ijk by (rule at3_astype)
  have a3v: "at3 ?vol i j k = to_float32 (at3 (dataobj vimg) i j k)"
    using vol(2,3) ijk by (rule at3_astype)
  have r': "- 2147483649 < at3 ?seg i j k" "at3 ?seg i j k < 2147483648"
    using range unfolding a3s by simp_all
  obtain out where all: "decompose ?vol (astype astype_int32 ?seg) = Inr out \<and>
     (\<forall>s < 4. at4 out i j k s =
        (if (if 0 \<le> at3 ?seg i j k then \<lfloor>at3 ?seg i j k\<rfloor> else \<lceil>at3 ?seg i j k\<rceil>)
              = LABELS ! s
         then at3 ?vol i j k else 0)) \<and>
     (at3 ?seg i j k = 19 / 10 \<longrightarrow> at4 out i j k 1 = at3 ?vol i j k) \<and>
     (at3 ?seg i j k = 1 / 2 \<longrightarrow> at4 out i j k 0 = at3 ?vol i j k)"
    using decompose_after_cast [OF sv(1) sv(2) ss(1) ss(2) ijk r'] ..
  note dec = all [THEN conjunct1]
  have f: "at4 out i j k s = (if ?tr = LABELS ! s then to_float32 (at3 (dataobj vimg) i j k) else 0)"
    if s: "s < 4" for s
    using all [THEN conjunct2, THEN conjunct1, rule_format, OF s] unfolding a3s a3v .
  have lv: "length (shape (dataobj vimg)) \<le> 3" "length (shape (dataobj simg)) \<le> 3"
    using vol(2) seg(2) by simp_all
  note run = segmentation_of_volumes [OF m vol(1) lv(1) seg(1) lv(2) dec wr]
  have c0: "- 1 < ?r \<and> ?r < 1 \<longrightarrow> at4 out i j k 0 = to_float32 (at3 (dataobj vimg) i j k)"
  proof
    assume b: "- 1 < ?r \<and> ?r < 1"
    have "?tr = 0"
    proof (cases "0 \<le> ?r")
      case True
      then have "\<lfloor>?r\<rfloor> = 0" using b by (simp add: floor_eq_iff)
      then show ?thesis using True by simp
    next
      case False
      then have "\<lceil>?r\<rceil> = 0" using b by (simp add: ceiling_eq_iff)
      then show ?thesis using False by simp
    qed
    then have "?tr = LABELS ! 0" by (simp add: LABELS_def)
    then show "at4 out i j k 0 = to_float32 (at3 (dataobj vimg) i j k)"
      using f [of 0] by simp
  qed
  have c1: "1 \<le> ?r \<and> ?r < 2 \<longrightarrow> at4 out i j k 1 = to_float32 (at3 (dataobj vimg) i j k)"
  proof
    assume b: "1 \<le> ?r \<and> ?r < 2"
    then have "\<lfloor>?r\<rfloor> = 1" by (simp add: floor_eq_iff)
    then have "?tr = LABELS ! 1" using b by (simp add: LABELS_def)
    then show "at4 out i j k 1 = to_float32 (at3 (dataobj vimg) i j k)"
      using f [of 1] by simp
  qed
  let ?w' = "w\<lparr>files := (files w)(?P \<mapsto>
                 NiftiFile \<lparr>dataobj = out, affine = affine simg,
                            header = (header simg)\<lparr>data_dtype := Float32\<rparr>\<rparr>)\<rparr>"
  have fw: "files ?w' ?P = Some (NiftiFile \<lparr>dataobj = out, affine = affine simg,
                         header = (header simg)\<lparr>data_dtype := Float32\<rparr>\<rparr>)"
    by simp
  have fa: "\<forall>s < 4. at4 out i j k s =
      (if ?tr = LABELS ! s then to_float32 (at3 (dataobj vimg) i j k) else 0)"
    using f by blast
  show ?thesis
    by (intro exI [of _ out] exI [of _ ?w'] conjI) (rule run, rule fw, rule fa, rule c0, rule c1)
qed

subsection \<open>The sample runs\<close>

lemma sample_modality: "extract_modality_from_filename ''p-t1n.nii.gz'' = Inr ''t1n''"
  by (simp add: extract_modality_from_filename_def match_at_def modality_suffix_def
      MODALITIES_def)

lemma sample_names:
  "segmented_filename_of ''p-t1n.nii.gz'' ''t1n'' = ''p-segmented-t1n.nii.gz''"
  "vrdf_filename_of ''p-t1n.nii.gz'' ''t1n'' = ''p-t1n.vrdf''"
  "actual_vrdf_filename_of ''p-t1n.nii.gz'' ''t1n'' = ''p-t1n_lw.vrdf''"
  by (simp_all add: segmented_filename_of_def vrdf_filename_of_def actual_vrdf_filename_of_def
      base_name_of_def modality_suffix_def)

lemma sample_cast:
  "astype astype_int32 \<lparr>shape = [1, 1, 2], data = [19 / 10, 1 / 2]\<rparr>
     = \<lparr>shape = [1, 1, 2], data = [1, 0]\<rparr>"
  by (simp add: astype_def astype_int32_def floor_eq_iff)

lemma sample_decompose:
  "decompose \<lparr>shape = [1, 1, 2], data = [5 :: rat, 7]\<rparr> \<lparr>shape = [1, 1, 2], data = [1, 0]\<rparr>
     = Inr \<lparr>shape = [1, 1, 2, 4], data = [0, 5, 0, 0, 7, 0, 0, 0]\<rparr>"
  by code_simp

lemma sample_dir: "path_exists (sample_world ud) (study_dir_of ''s1'')"
  by (simp add: path_exists_def study_dir_of_def path_join_def sample_world_def)

lemma sample_segmentation:
  "perform_segmentation_from_filename (\<lambda>x. x) (study_dir_of ''s1'') ''p-t1n.nii.gz''
       ''p-seg.nii.gz'' (sample_world ud)
     = (Inr ''storage/studies/s1/p-segmented-t1n.nii.gz'',
        (sample_world ud)\<lparr>files := (files (sample_world ud))
           (''storage/studies/s1/p-segmented-t1n.nii.gz'' \<mapsto> NiftiFile sample_segmented)\<rparr>)"
proof -
  have l1: "load_3d (\<lambda>x. x) (sample_world ud) ''storage/studies/s1/p-seg.nii.gz''
      = Inr (\<lparr>shape = [1, 1, 2], data = [19 / 10, 1 / 2]\<rparr>, [], sample_header)"
    by (simp add: load_3d_def nib_load_def sample_world_def load_3d_data_def astype_def)
  have l2: "load_3d (\<lambda>x. x) (sample_world ud) ''storage/studies/s1/p-t1n.nii.gz''
      = Inr (\<lparr>shape = [1, 1, 2], data = [5, 7]\<rparr>, [], sample_header)"
    by (simp add: load_3d_def nib_load_def sample_world_def load_3d_data_def astype_def)
  have e: "path_exists (sample_world ud) ''storage/studies/s1/p-t1n.nii.gz''"
    "path_exists (sample_world ud) ''storage/studies/s1/p-seg.nii.gz''"
    by (simp_all add: path_exists_def sample_world_def)
  have j: "path_join (study_dir_of ''s1'') ''p-t1n.nii.gz'' = ''storage/studies/s1/p-t1n.nii.gz''"
    "path_join (study_dir_of ''s1'') ''p-seg.nii.gz'' = ''storage/studies/s1/p-seg.nii.gz''"
    "path_join (study_dir_of ''s1'') ''p-segmented-t1n.nii.gz''
       = ''storage/studies/s1/p-segmented-t1n.nii.gz''"
    by (simp_all add: path_join_def study_dir_of_def)
  have sv: "nib_save sample_segmented ''storage/studies/s1/p-segmented-t1n.nii.gz'' (sample_world ud)
      = (Inr (), (sample_world ud)\<lparr>files := (files (sample_world ud))
           (''storage/studies/s1/p-segmented-t1n.nii.gz'' \<mapsto> NiftiFile sample_segmented)\<rparr>)"
    by (simp add: nib_save_def sample_world_def)
  show ?thesis
    by (simp add: perform_segmentation_from_filename_def Let_def sample_modality j sample_names
        e l1 l2 sample_cast sample_decompose sv [unfolded sample_segmented_def]
        sample_segmented_def del: One_nat_def)
qed

lemma sample_vrdf_path:
  "path_join (study_dir_of ''s1'') (vrdf_filename_of ''p-t1n.nii.gz'' ''t1n'')
     = ''storage/studies/s1/p-t1n.vrdf''"
  "path_join (study_dir_of ''s1'') ''p-t1n.vrdf'' = ''storage/studies/s1/p-t1n.vrdf''"
  by (simp_all add: sample_names path_join_def study_dir_of_def)

lemma sample_conversion_failing:
  "perform_conversion (\<lambda>x. x) failing_encoder ''storage/studies/s1/p-segmented-t1n.nii.gz''
       outp cfg
       ((sample_world ud)\<lparr>files := (files (sample_world ud))
           (''storage/studies/s1/p-segmented-t1n.nii.gz'' \<mapsto> NiftiFile sample_segmented)\<rparr>)
     = (Inl EncoderFailure,
        (sample_world ud)\<lparr>files := (files (sample_world ud))
           (''storage/studies/s1/p-segmented-t1n.nii.gz'' \<mapsto> NiftiFile sample_segmented)\<rparr>)"
  by (simp add: perform_conversion_def failing_encoder_def nib_load_def)

lemma sample_conversion_plain:
  "perform_conversion (\<lambda>x. x) plain_encoder ''storage/studies/s1/p-segmented-t1n.nii.gz''
       ''storage/studies/s1/p-t1n.vrdf'' cfg
       ((sample_world ud)\<lparr>files := (files (sample_world ud))
           (''storage/studies/s1/p-segmented-t1n.nii.gz'' \<mapsto> NiftiFile sample_segmented)\<rparr>)
     = (Inr (),
        (sample_world ud)\<lparr>files := (files (sample_world ud))
           (''storage/studies/s1/p-segmented-t1n.nii.gz'' \<mapsto> NiftiFile sample_segmented,
            ''storage/studies/s1/p-t1n.vrdf'' \<mapsto> OtherFile)\<rparr>)"
  by (simp add: perform_conversion_def plain_encoder_def nib_load_def)

lemma sample_world_fields:
  "undeletable (sample_world ud) = ud" "unwritable (sample_world ud) = (\<lambda>p. False)"
  by (simp_all add: sample_world_def)

lemma sample_world_vrdf:
  "files (sample_world ud) ''storage/studies/s1/p-t1n.vrdf'' = None"
  "files (sample_world ud) ''storage/studies/s1/p-t1n_lw.vrdf'' = None"
  by (simp_all add: sample_world_def)

lemma sample_pipeline_plain:
  "perform_segmentation_and_conversion_from_filename (\<lambda>x. x) plain_encoder ''s1''
       ''p-t1n.nii.gz'' ''p-seg.nii.gz'' cfg (sample_world (\<lambda>p. False))
     = (Inr (''storage/studies/s1/p-segmented-t1n.nii.gz'', ''p-t1n_lw.vrdf''),
        (sample_world (\<lambda>p. False))\<lparr>files := (files (sample_world (\<lambda>p. False)))
           (''storage/studies/s1/p-segmented-t1n.nii.gz'' \<mapsto> NiftiFile sample_segmented,
            ''storage/studies/s1/p-t1n.vrdf'' \<mapsto> OtherFile,
            ''storage/studies/s1/p-segmented-t1n.nii.gz'' := None)\<rparr>)"
  unfolding pipeline_after_segmentation [OF sample_dir sample_segmentation sample_modality]
    sample_vrdf_path sample_conversion_plain sample_names
  by (simp add: path_exists_def unlink_def sample_world_fields)

lemma sample_pipeline_locked:
  "perform_segmentation_and_conversion_from_filename (\<lambda>x. x) plain_encoder ''s1''
       ''p-t1n.nii.gz'' ''p-seg.nii.gz'' cfg
       (sample_world (\<lambda>p. p = ''storage/studies/s1/p-segmented-t1n.nii.gz''))
     = (Inl PermissionError,
        (sample_world (\<lambda>p. p = ''storage/studies/s1/p-segmented-t1n.nii.gz''))
          \<lparr>files := (files (sample_world (\<lambda>p. p = ''storage/studies/s1/p-segmented-t1n.nii.gz'')))
           (''storage/studies/s1/p-segmented-t1n.nii.gz'' \<mapsto> NiftiFile sample_segmented,
            ''storage/studies/s1/p-t1n.vrdf'' \<mapsto> OtherFile)\<rparr>)"
  unfolding pipeline_after_segmentation [OF sample_dir sample_segmentation sample_modality]
    sample_vrdf_path sample_conversion_plain sample_names
  by (simp add: path_exists_def unlink_def sample_world_fields)

theorem cleanup_on_success_only_witness:
  "path_exists (sample_world (\<lambda>p. False)) (study_dir_of ''s1'')
   \<and> fst (perform_segmentation_from_filename (\<lambda>x. x) (study_dir_of ''s1'') ''p-t1n.nii.gz''
         ''p-seg.nii.gz'' (sample_world (\<lambda>p. False)))
       = Inr ''storage/studies/s1/p-segmented-t1n.nii.gz''
   \<and> fst (perform_segmentation_and_conversion_from_filename (\<lambda>x. x) failing_encoder ''s1''
         ''p-t1n.nii.gz'' ''p-seg.nii.gz'' ''./config.json'' (sample_world (\<lambda>p. False)))
       = Inl EncoderFailure
   \<and> path_exists
        (snd (perform_segmentation_and_conversion_from_filename (\<lambda>x. x) failing_encoder ''s1''
           ''p-t1n.nii.gz'' ''p-seg.nii.gz'' ''./config.json'' (sample_world (\<lambda>p. False))))
        ''storage/studies/s1/p-segmented-t1n.nii.gz''
   \<and> fst (perform_segmentation_and_conversion_from_filename (\<lambda>x. x) plain_encoder ''s1''
         ''p-t1n.nii.gz'' ''p-seg.nii.gz'' ''./config.json'' (sample_world (\<lambda>p. False)))
       = Inr (''storage/studies/s1/p-segmented-t1n.nii.gz'', ''p-t1n_lw.vrdf'')
   \<and> \<not> path_exists
        (snd (perform_segmentation_and_conversion_from_filename (\<lambda>x. x) plain_encoder ''s1''
           ''p-t1n.nii.gz'' ''p-seg.nii.gz'' ''./config.json'' (sample_world (\<lambda>p. False))))
        ''storage/studies/s1/p-segmented-t1n.nii.gz''"
proof -
  let ?P = "''storage/studies/s1/p-segmented-t1n.nii.gz''"
  let ?w = "sample_world (\<lambda>p. False)"
  let ?w1 = "?w\<lparr>files := (files ?w)(?P \<mapsto> NiftiFile sample_segmented)\<rparr>"
  let ?runf = "perform_segmentation_and_conversion_from_filename (\<lambda>x. x) failing_encoder ''s1''
         ''p-t1n.nii.gz'' ''p-seg.nii.gz'' ''./config.json'' ?w"
  let ?runp = "perform_segmentation_and_conversion_from_filename (\<lambda>x. x) plain_encoder ''s1''
         ''p-t1n.nii.gz'' ''p-seg.nii.gz'' ''./config.json'' ?w"
  have keepf: "\<forall>v a sp tf out d s w'. path_exists w' ?P \<longrightarrow>
      path_exists (snd (export_labelmap_weighted_case failing_encoder v a sp tf out d s w')) ?P"
    by (simp add: failing_encoder_def)
  have keepp: "\<forall>v a sp tf out d s w'. path_exists w' ?P \<longrightarrow>
      path_exists (snd (export_labelmap_weighted_case plain_encoder v a sp tf out d s w')) ?P"
    by (simp add: plain_encoder_def path_exists_def)
  obtain m where F: "extract_modality_from_filename ''p-t1n.nii.gz'' = Inr m \<and>
     (\<forall>e w2. perform_conversion (\<lambda>x. x) failing_encoder ?P
                 (path_join (study_dir_of ''s1'') (vrdf_filename_of ''p-t1n.nii.gz'' m))
                 ''./config.json'' ?w1 = (Inl e, w2) \<longrightarrow>
        ?runf = (Inl e, w2) \<and> path_exists w2 ?P) \<and>
     (\<forall>w2 r w3. perform_conversion (\<lambda>x. x) failing_encoder ?P
                 (path_join (study_dir_of ''s1'') (vrdf_filename_of ''p-t1n.nii.gz'' m))
                 ''./config.json'' ?w1 = (Inr (), w2) \<longrightarrow>
        ?runf = (Inr r, w3) \<longrightarrow> \<not> path_exists w3 ?P)"
    using cleanup_on_success_only [OF sample_dir sample_segmentation keepf, of "''./config.json''"] ..
  have "?runf = (Inl EncoderFailure, ?w1) \<and> path_exists ?w1 ?P"
    using F [THEN conjunct2, THEN conjunct1, rule_format, OF sample_conversion_failing] .
  then have f: "fst ?runf = Inl EncoderFailure" "path_exists (snd ?runf) ?P" by simp_all
  obtain m' where G: "extract_modality_from_filename ''p-t1n.nii.gz'' = Inr m' \<and>
     (\<forall>e w2. perform_conversion (\<lambda>x. x) plain_encoder ?P
                 (path_join (study_dir_of ''s1'') (vrdf_filename_of ''p-t1n.nii.gz'' m'))
                 ''./config.json'' ?w1 = (Inl e, w2) \<longrightarrow>
        ?runp = (Inl e, w2) \<and> path_exists w2 ?P) \<and>
     (\<forall>w2 r w3. perform_conversion (\<lambda>x. x) plain_encoder ?P
                 (path_join (study_dir_of ''s1'') (vrdf_filename_of ''p-t1n.nii.gz'' m'))
                 ''./config.json'' ?w1 = (Inr (), w2) \<longrightarrow>
        ?runp = (Inr r, w3) \<longrightarrow> \<not> path_exists w3 ?P)"
    using cleanup_on_success_only [OF sample_dir sample_segmentation keepp, of "''./config.json''"] ..
  have m': "m' = ''t1n''" using G [THEN conjunct1] sample_modality by simp
  have cp: "perform_conversion (\<lambda>x. x) plain_encoder ?P
                 (path_join (study_dir_of ''s1'') (vrdf_filename_of ''p-t1n.nii.gz'' m'))
                 ''./config.json'' ?w1
     = (Inr (), ?w1\<lparr>files := (files ?w1)(''storage/studies/s1/p-t1n.vrdf'' \<mapsto> OtherFile)\<rparr>)"
    unfolding m' sample_vrdf_path using sample_conversion_plain [of "''./config.json''" "\<lambda>p. False"]
    by simp
  have rp: "?runp = (fst ?runp, snd ?runp)" by simp
  have pf: "fst ?runp = Inr (?P, ''p-t1n_lw.vrdf'')" by (simp add: sample_pipeline_plain)
  have "\<not> path_exists (snd ?runp) ?P"
    using G [THEN conjunct2, THEN conjunct2, rule_format, OF cp, of "(?P, ''p-t1n_lw.vrdf'')" "snd ?runp"]
      rp pf by simp
  then show ?thesis using f pf sample_dir [of "\<lambda>p. False"] sample_segmentation [of "\<lambda>p. False"]
    by simp
qed

text \<open>
  C5 as stated fails: with an intermediate file that cannot be deleted, the encoder
  succeeds and the run ends with the \<^verbatim>\<open>PermissionError\<close> of the deletion.
\<close>

theorem deletion_failure_counterexample:
  "fst (perform_conversion (\<lambda>x. x) plain_encoder ''storage/studies/s1/p-segmented-t1n.nii.gz''
          ''storage/studies/s1/p-t1n.vrdf'' ''./config.json''
          (snd (perform_segmentation_from_filename (\<lambda>x. x) (study_dir_of ''s1'')
                  ''p-t1n.nii.gz'' ''p-seg.nii.gz''
                  (sample_world (\<lambda>p. p = ''storage/studies/s1/p-segmented-t1n.nii.gz'')))))
     = Inr ()
   \<and> fst (perform_segmentation_and_conversion_from_filename (\<lambda>x. x) plain_encoder ''s1''
          ''p-t1n.nii.gz'' ''p-seg.nii.gz'' ''./config.json''
          (sample_world (\<lambda>p. p = ''storage/studies/s1/p-segmented-t1n.nii.gz'')))
     = Inl PermissionError"
  by (simp add: sample_segmentation sample_conversion_plain sample_pipeline_locked)

theorem deletion_failure_propagates_witness:
  "path_exists (sample_world (\<lambda>p. p = ''storage/studies/s1/p-segmented-t1n.nii.gz''))
     (study_dir_of ''s1'')
   \<and> extract_modality_from_filename ''p-t1n.nii.gz'' = Inr ''t1n''
   \<and> fst (unlink ''storage/studies/s1/p-segmented-t1n.nii.gz''
        ((sample_world (\<lambda>p. p = ''storage/studies/s1/p-segmented-t1n.nii.gz''))
          \<lparr>files := (files (sample_world (\<lambda>p. p = ''storage/studies/s1/p-segmented-t1n.nii.gz'')))
           (''storage/studies/s1/p-segmented-t1n.nii.gz'' \<mapsto> NiftiFile sample_segmented,
            ''storage/studies/s1/p-t1n.vrdf'' \<mapsto> OtherFile)\<rparr>)) = Inl PermissionError
   \<and> perform_segmentation_and_conversion_from_filename (\<lambda>x. x) plain_encoder ''s1''
          ''p-t1n.nii.gz'' ''p-seg.nii.gz'' ''./config.json''
          (sample_world (\<lambda>p. p = ''storage/studies/s1/p-segmented-t1n.nii.gz''))
     = (Inl PermissionError,
        (sample_world (\<lambda>p. p = ''storage/studies/s1/p-segmented-t1n.nii.gz''))
          \<lparr>files := (files (sample_world (\<lambda>p. p = ''storage/studies/s1/p-segmented-t1n.nii.gz'')))
           (''storage/studies/s1/p-segmented-t1n.nii.gz'' \<mapsto> NiftiFile sample_segmented,
            ''storage/studies/s1/p-t1n.vrdf'' \<mapsto> OtherFile)\<rparr>)"
proof -
  let ?P = "''storage/studies/s1/p-segmented-t1n.nii.gz''"
  let ?w = "sample_world (\<lambda>p. p = ?P)"
  let ?w1 = "?w\<lparr>files := (files ?w)(?P \<mapsto> NiftiFile sample_segmented)\<rparr>"
  let ?w2 = "?w\<lparr>files := (files ?w)(?P \<mapsto> NiftiFile sample_segmented,
            ''storage/studies/s1/p-t1n.vrdf'' \<mapsto> OtherFile)\<rparr>"
  have conv: "perform_conversion (\<lambda>x. x) plain_encoder ?P
      (path_join (study_dir_of ''s1'') (vrdf_filename_of ''p-t1n.nii.gz'' ''t1n''))
      ''./config.json'' ?w1 = (Inr (), ?w2)"
    unfolding sample_vrdf_path by (rule sample_conversion_plain)
  have ex: "path_exists ?w2 ?P" by (simp add: path_exists_def)
  have del: "unlink ?P ?w2 = (Inl PermissionError, ?w2)"
    by (simp add: unlink_def sample_world_fields)
  have "perform_segmentation_and_conversion_from_filename (\<lambda>x. x) plain_encoder ''s1''
          ''p-t1n.nii.gz'' ''p-seg.nii.gz'' ''./config.json'' ?w = (Inl PermissionError, ?w2)"
    using deletion_failure_propagates [OF sample_dir sample_segmentation sample_modality conv ex del] .
  then show ?thesis using sample_dir [of "\<lambda>p. p = ?P"] sample_modality del by simp
qed

text \<open>
  C8 as stated fails for an encoder that appends nothing: the run reports
  \<^verbatim>\<open>p-t1n_lw.vrdf\<close>, no such file exists, and the file the encoder has produced is
  \<^verbatim>\<open>p-t1n.vrdf\<close>.
\<close>

theorem reported_name_counterexample:
  "fst (perform_segmentation_and_conversion_from_filename (\<lambda>x. x) plain_encoder ''s1''
          ''p-t1n.nii.gz'' ''p-seg.nii.gz'' ''./config.json'' (sample_world (\<lambda>p. False)))
     = Inr (''storage/studies/s1/p-segmented-t1n.nii.gz'', ''p-t1n_lw.vrdf'')
   \<and> files (snd (perform_segmentation_and_conversion_from_filename (\<lambda>x. x) plain_encoder ''s1''
          ''p-t1n.nii.gz'' ''p-seg.nii.gz'' ''./config.json'' (sample_world (\<lambda>p. False))))
        ''storage/studies/s1/p-t1n_lw.vrdf'' = None
   \<and> files (snd (perform_segmentation_and_conversion_from_filename (\<lambda>x. x) plain_encoder ''s1''
          ''p-t1n.nii.gz'' ''p-seg.nii.gz'' ''./config.json'' (sample_world (\<lambda>p. False))))
        ''storage/studies/s1/p-t1n.vrdf'' = Some OtherFile
   \<and> files (sample_world (\<lambda>p. False)) ''storage/studies/s1/p-t1n.vrdf'' = None"
  by (simp add: sample_pipeline_plain sample_world_vrdf)

theorem reported_name_has_fixed_suffix_witness:
  "fst (perform_segmentation_and_conversion_from_filename (\<lambda>x. x) plain_encoder ''s1''
          ''p-t1n.nii.gz'' ''p-seg.nii.gz'' ''./config.json'' (sample_world (\<lambda>p. False)))
     = Inr (''storage/studies/s1/p-segmented-t1n.nii.gz'', ''p-t1n_lw.vrdf'')
   \<and> (\<exists>m. extract_modality_from_filename ''p-t1n.nii.gz'' = Inr m \<and>
          vrdf_filename_of ''p-t1n.nii.gz'' m = base_name_of ''p-t1n.nii.gz'' m @ ''-'' @ m @ ''.vrdf'' \<and>
          ''p-t1n_lw.vrdf'' = base_name_of ''p-t1n.nii.gz'' m @ ''-'' @ m @ ''_lw.vrdf'')"
  using reported_name_has_fixed_suffix [OF sample_pipeline_plain [of "''./config.json''"]]
  by (simp add: sample_pipeline_plain)

theorem returned_intermediate_path_deleted_witness:
  "fst (perform_segmentation_and_conversion_from_filename (\<lambda>x. x) plain_encoder ''s1''
          ''p-t1n.nii.gz'' ''p-seg.nii.gz'' ''./config.json'' (sample_world (\<lambda>p. False)))
     = Inr (''storage/studies/s1/p-segmented-t1n.nii.gz'', ''p-t1n_lw.vrdf'')
   \<and> \<not> path_exists
        (snd (perform_segmentation_and_conversion_from_filename (\<lambda>x. x) plain_encoder ''s1''
          ''p-t1n.nii.gz'' ''p-seg.nii.gz'' ''./config.json'' (sample_world (\<lambda>p. False))))
        ''storage/studies/s1/p-segmented-t1n.nii.gz''
   \<and> path_exists
        (snd (perform_segmentation_from_filename (\<lambda>x. x) (study_dir_of ''s1'')
                  ''p-t1n.nii.gz'' ''p-seg.nii.gz'' (sample_world (\<lambda>p. False))))
        ''storage/studies/s1/p-segmented-t1n.nii.gz''"
proof -
  let ?P = "''storage/studies/s1/p-segmented-t1n.nii.gz''"
  let ?run = "perform_segmentation_and_conversion_from_filename (\<lambda>x. x) plain_encoder ''s1''
          ''p-t1n.nii.gz'' ''p-seg.nii.gz'' ''./config.json'' (sample_world (\<lambda>p. False))"
  obtain m w1 where "extract_modality_from_filename ''p-t1n.nii.gz'' = Inr m \<and>
      perform_segmentation_from_filename (\<lambda>x. x) (study_dir_of ''s1'') ''p-t1n.nii.gz''
        ''p-seg.nii.gz'' (sample_world (\<lambda>p. False))
        = (Inr (fst (?P, ''p-t1n_lw.vrdf'')), w1) \<and>
      fst (?P, ''p-t1n_lw.vrdf'')
        = path_join (study_dir_of ''s1'') (segmented_filename_of ''p-t1n.nii.gz'' m) \<and>
      path_exists w1 (fst (?P, ''p-t1n_lw.vrdf'')) \<and>
      \<not> path_exists (snd ?run) (fst (?P, ''p-t1n_lw.vrdf''))"
    using returned_intermediate_path_deleted
      [OF sample_pipeline_plain [of "''./config.json''"]]
    by (auto simp: sample_pipeline_plain)
  then show ?thesis by (auto simp: sample_pipeline_plain)
qed

lemma float32_exponent_samples:
  "float32_exponent (1073741823 / 1073741824) = - 1"
  "float32_exponent (1 / 2) = - 1"
  "float32_exponent 5 = 2"
  "float32_exponent 7 = 2"
  "float32_exponent (19 / 10) = 0"
  by (simp_all add: float32_exponent_def upt_conv_Cons power_int_def)

lemma round_half_even_down:
  "\<lfloor>x\<rfloor> = f \<Longrightarrow> x - of_int f < 1 / 2 \<Longrightarrow> round_half_even x = f"
  by (simp add: round_half_even_def Let_def)

lemma round_half_even_up:
  "\<lfloor>x\<rfloor> = f \<Longrightarrow> 1 / 2 < x - of_int f \<Longrightarrow> round_half_even x = f + 1"
  by (simp add: round_half_even_def Let_def)

lemma round_float32_eval:
  assumes "float32_exponent v = e" "2 powi (e - 23) = q" "round_half_even (v / q) = n"
  shows "round_float32 v = of_int n * q"
  using assms by (simp add: round_float32_def Let_def)

lemma float32_quanta:
  "(2 :: rat) powi (- 1 - 23) = 1 / 16777216"
  "(2 :: rat) powi (2 - 23) = 1 / 2097152"
  "(2 :: rat) powi (0 - 23) = 1 / 8388608"
  by (simp_all add: power_int_def power_one_over)

lemma round_float32_below_one: "round_float32 (1073741823 / 1073741824) = 1"
proof -
  have x: "(1073741823 / 1073741824 :: rat) / (1 / 16777216) = 1073741823 / 64" by simp
  have fl: "\<lfloor>1073741823 / 64 :: rat\<rfloor> = 16777215" by (simp add: floor_eq_iff)
  have "round_half_even (1073741823 / 64) = 16777215 + 1"
    using fl by (rule round_half_even_up) simp
  then have n: "round_half_even ((1073741823 / 1073741824) / (1 / 16777216)) = 16777216"
    unfolding x by simp
  show ?thesis
    using round_float32_eval [OF float32_exponent_samples(1) float32_quanta(1) n] by simp
qed

lemma round_float32_half: "round_float32 (1 / 2) = 1 / 2"
proof -
  have x: "(1 / 2 :: rat) / (1 / 16777216) = 8388608" by simp
  have fl: "\<lfloor>8388608 :: rat\<rfloor> = 8388608" by simp
  have "round_half_even 8388608 = 8388608"
    using fl by (rule round_half_even_down) simp
  then have n: "round_half_even ((1 / 2) / (1 / 16777216)) = 8388608"
    unfolding x by simp
  show ?thesis
    using round_float32_eval [OF float32_exponent_samples(2) float32_quanta(1) n] by simp
qed

lemma round_float32_five: "round_float32 5 = 5"
proof -
  have x: "(5 :: rat) / (1 / 2097152) = 10485760" by simp
  have fl: "\<lfloor>10485760 :: rat\<rfloor> = 10485760" by simp
  have "round_half_even 10485760 = 10485760"
    using fl by (rule round_half_even_down) simp
  then have n: "round_half_even (5 / (1 / 2097152)) = 10485760"
    unfolding x by simp
  show ?thesis
    using round_float32_eval [OF float32_exponent_samples(3) float32_quanta(2) n] by simp
qed

lemma round_float32_seven: "round_float32 7 = 7"
proof -
  have x: "(7 :: rat) / (1 / 2097152) = 14680064" by simp
  have fl: "\<lfloor>14680064 :: rat\<rfloor> = 14680064" by simp
  have "round_half_even 14680064 = 14680064"
    using fl by (rule round_half_even_down) simp
  then have n: "round_half_even (7 / (1 / 2097152)) = 14680064"
    unfolding x by simp
  show ?thesis
    using round_float32_eval [OF float32_exponent_samples(4) float32_quanta(2) n] by simp
qed

lemma round_float32_one_point_nine: "round_float32 (19 / 10) = 15938355 / 8388608"
proof -
  have x: "(19 / 10 :: rat) / (1 / 8388608) = 79691776 / 5" by simp
  have fl: "\<lfloor>79691776 / 5 :: rat\<rfloor> = 15938355" by (simp add: floor_eq_iff)
  have "round_half_even (79691776 / 5) = 15938355"
    using fl by (rule round_half_even_down) simp
  then have n: "round_half_even ((19 / 10) / (1 / 8388608)) = 15938355"
    unfolding x by simp
  show ?thesis
    using round_float32_eval [OF float32_exponent_samples(5) float32_quanta(3) n] by simp
qed

lemmas round_float32_samples =
  round_float32_below_one round_float32_half round_float32_five round_float32_seven

lemma sample_float64_loaded:
  "astype round_float32 \<lparr>shape = [1, 1, 2], data = [5, 7]\<rparr>
     = \<lparr>shape = [1, 1, 2], data = [5, 7]\<rparr>"
  "astype astype_int32
     (astype round_float32 \<lparr>shape = [1, 1, 2], data = [1073741823 / 1073741824, 1 / 2]\<rparr>)
     = \<lparr>shape = [1, 1, 2], data = [1, 0]\<rparr>"
  by (simp_all add: astype_def round_float32_samples astype_int32_def floor_eq_iff)

lemma sample_float64_files:
  "files sample_world_float64 (path_join (study_dir_of ''s1'') ''p-t1n.nii.gz'')
     = Some (NiftiFile \<lparr>dataobj = \<lparr>shape = [1, 1, 2], data = [5, 7]\<rparr>,
                         affine = [], header = sample_header\<rparr>)"
  "files sample_world_float64 (path_join (study_dir_of ''s1'') ''p-seg.nii.gz'')
     = Some (NiftiFile \<lparr>dataobj = \<lparr>shape = [1, 1, 2],
                                      data = [1073741823 / 1073741824, 1 / 2]\<rparr>,
                         affine = [], header = sample_header\<rparr>)"
  "\<not> unwritable sample_world_float64
       (path_join (study_dir_of ''s1'') (segmented_filename_of ''p-t1n.nii.gz'' ''t1n''))"
  "files sample_world_float64
       (path_join (study_dir_of ''s1'') (segmented_filename_of ''p-t1n.nii.gz'' ''t1n''))
     \<noteq> Some Directory"
  by (simp_all add: sample_world_float64_def path_join_def study_dir_of_def sample_names)

lemma sample_float64_segmentation:
  "perform_segmentation_from_filename round_float32 (study_dir_of ''s1'') ''p-t1n.nii.gz''
       ''p-seg.nii.gz'' sample_world_float64
     = (Inr ''storage/studies/s1/p-segmented-t1n.nii.gz'',
        sample_world_float64\<lparr>files := (files sample_world_float64)
           (''storage/studies/s1/p-segmented-t1n.nii.gz'' \<mapsto> NiftiFile sample_segmented)\<rparr>)"
proof -
  have dec: "decompose (astype round_float32 (dataobj \<lparr>dataobj = \<lparr>shape = [1, 1, 2], data = [5, 7]\<rparr>,
                         affine = [], header = sample_header\<rparr>))
      (astype astype_int32 (astype round_float32
         (dataobj \<lparr>dataobj = \<lparr>shape = [1, 1, 2], data = [1073741823 / 1073741824, 1 / 2]\<rparr>,
                         affine = [], header = sample_header\<rparr>)))
      = Inr \<lparr>shape = [1, 1, 2, 4], data = [0, 5, 0, 0, 7, 0, 0, 0]\<rparr>"
    by (simp add: sample_float64_loaded sample_decompose del: One_nat_def)
  have p: "path_join (study_dir_of ''s1'') (segmented_filename_of ''p-t1n.nii.gz'' ''t1n'')
      = ''storage/studies/s1/p-segmented-t1n.nii.gz''"
    by (simp add: sample_names path_join_def study_dir_of_def)
  show ?thesis
    using segmentation_of_volumes [OF sample_modality sample_float64_files(1) _
        sample_float64_files(2) _ dec sample_float64_files(3,4)]
    by (simp add: p sample_segmented_def)
qed

text \<open>
  C10 as stated fails: the stored value \<open>1 - 2 ^ - 30\<close> of the first voxel truncates to
  0, but the loader rounds it to 1, and the segmentation writes the voxel's intensity 5
  to the channel of label 1 and leaves the channel of label 0 at zero.
\<close>

theorem stored_labelmap_truncation_counterexample:
  "at3 \<lparr>shape = [1, 1, 2], data = [1073741823 / 1073741824 :: rat, 1 / 2]\<rparr> 0 0 0
     = 1073741823 / 1073741824
   \<and> \<lfloor>1073741823 / 1073741824 :: rat\<rfloor> = 0
   \<and> LABELS ! 0 = 0
   \<and> fst (perform_segmentation_from_filename round_float32 (study_dir_of ''s1'')
          ''p-t1n.nii.gz'' ''p-seg.nii.gz'' sample_world_float64)
       = Inr ''storage/studies/s1/p-segmented-t1n.nii.gz''
   \<and> files (snd (perform_segmentation_from_filename round_float32 (study_dir_of ''s1'')
          ''p-t1n.nii.gz'' ''p-seg.nii.gz'' sample_world_float64))
        ''storage/studies/s1/p-segmented-t1n.nii.gz''
       = Some (NiftiFile sample_segmented)
   \<and> at4 (dataobj sample_segmented) 0 0 0 0 = 0
   \<and> at4 (dataobj sample_segmented) 0 0 0 1 = 5"
  by (simp add: sample_float64_segmentation at3_def at4_def sample_segmented_def LABELS_def
      floor_eq_iff)

theorem stored_labelmap_rounded_then_truncated_witness:
  "extract_modality_from_filename ''p-t1n.nii.gz'' = Inr ''t1n''
   \<and> round_float32 (1073741823 / 1073741824) = 1
   \<and> (\<exists>out w'. perform_segmentation_from_filename round_float32 (study_dir_of ''s1'')
          ''p-t1n.nii.gz'' ''p-seg.nii.gz'' sample_world_float64
            = (Inr (path_join (study_dir_of ''s1'')
                      (segmented_filename_of ''p-t1n.nii.gz'' ''t1n'')), w')
        \<and> files w' (path_join (study_dir_of ''s1'')
                      (segmented_filename_of ''p-t1n.nii.gz'' ''t1n''))
            = Some (NiftiFile \<lparr>dataobj = out, affine = [],
                                header = sample_header\<lparr>data_dtype := Float32\<rparr>\<rparr>)
        \<and> at4 out 0 0 0 1 = 5)"
proof -
  let ?vimg = "\<lparr>dataobj = \<lparr>shape = [1, 1, 2], data = [5 :: rat, 7]\<rparr>,
                         affine = [], header = sample_header\<rparr>"
  let ?simg = "\<lparr>dataobj = \<lparr>shape = [1, 1, 2],
                                      data = [1073741823 / 1073741824 :: rat, 1 / 2]\<rparr>,
                         affine = [], header = sample_header\<rparr>"
  have sv: "shape (dataobj ?vimg) = [1, 1, 2]" "wf_array (dataobj ?vimg)"
    and ss: "shape (dataobj ?simg) = [1, 1, 2]" "wf_array (dataobj ?simg)"
    by (simp_all add: wf_array_def)
  have n: "(0::nat) < 1" "(0::nat) < 2" by simp_all
  have v: "at3 (dataobj ?simg) 0 0 0 = 1073741823 / 1073741824"
    and u: "at3 (dataobj ?vimg) 0 0 0 = 5"
    by (simp_all add: at3_def)
  have r: "- 2147483649 < round_float32 (at3 (dataobj ?simg) 0 0 0)"
    "round_float32 (at3 (dataobj ?simg) 0 0 0) < 2147483648"
    unfolding v round_float32_samples by simp_all
  have b: "1 \<le> round_float32 (at3 (dataobj ?simg) 0 0 0)
      \<and> round_float32 (at3 (dataobj ?simg) 0 0 0) < 2"
    unfolding v round_float32_samples by simp
  obtain out w' where all:
    "perform_segmentation_from_filename round_float32 (study_dir_of ''s1'')
          ''p-t1n.nii.gz'' ''p-seg.nii.gz'' sample_world_float64
       = (Inr (path_join (study_dir_of ''s1'')
                 (segmented_filename_of ''p-t1n.nii.gz'' ''t1n'')), w')"
    "files w' (path_join (study_dir_of ''s1'')
                 (segmented_filename_of ''p-t1n.nii.gz'' ''t1n''))
       = Some (NiftiFile \<lparr>dataobj = out, affine = affine ?simg,
                           header = (header ?simg)\<lparr>data_dtype := Float32\<rparr>\<rparr>)"
    "1 \<le> round_float32 (at3 (dataobj ?simg) 0 0 0)
        \<and> round_float32 (at3 (dataobj ?simg) 0 0 0) < 2
      \<longrightarrow> at4 out 0 0 0 1 = round_float32 (at3 (dataobj ?vimg) 0 0 0)"
    using stored_labelmap_rounded_then_truncated
      [where ?to_float32.0 = round_float32 and i = 0 and j = 0 and k = 0,
       OF sample_modality sample_float64_files(1) sv sample_float64_files(2) ss
          sample_float64_files(3,4) n(1) n(1) n(2) r]
    by blast
  have "at4 out 0 0 0 1 = 5"
    using all(3) b unfolding u round_float32_samples by simp
  then have "\<exists>out w'. perform_segmentation_from_filename round_float32 (study_dir_of ''s1'')
          ''p-t1n.nii.gz'' ''p-seg.nii.gz'' sample_world_float64
            = (Inr (path_join (study_dir_of ''s1'')
                      (segmented_filename_of ''p-t1n.nii.gz'' ''t1n'')), w')
        \<and> files w' (path_join (study_dir_of ''s1'')
                      (segmented_filename_of ''p-t1n.nii.gz'' ''t1n''))
            = Some (NiftiFile \<lparr>dataobj = out, affine = [],
                                header = sample_header\<lparr>data_dtype := Float32\<rparr>\<rparr>)
        \<and> at4 out 0 0 0 1 = 5"
    using all(1,2) by (intro exI [of _ out] exI [of _ w'] conjI) simp_all
  then show ?thesis using sample_modality round_float32_samples(1) by (intro conjI)
qed

end
